theory Spec2Isabelle
  imports Complex_Main "HOL-Library.Word" "HOL-Library.AList" "HOL-Library.Multiset"
    "HOL-Library.Sublist"
begin

section \<open>Data model (WalletTypes.h)\<close>

text \<open>
  \<open>Crypto::PublicKey\<close>, \<open>SecretKey\<close>, \<open>KeyImage\<close>, \<open>Hash\<close> and \<open>KeyDerivation\<close> are
  fixed-size opaque byte strings that the container only copies and compares. A value is
  represented by the number its bytes encode. \<open>uint64_t\<close> is \<open>64 word\<close>: \<open>+\<close> wraps and
  \<open>\<le>\<close> is the unsigned order.
\<close>

datatype PublicKey = PublicKey nat
datatype SecretKey = SecretKey nat
datatype KeyImage = KeyImage nat
datatype Hash = Hash nat
datatype KeyDerivation = KeyDerivation nat

type_synonym uint64_t = "64 word"

text \<open>\<open>struct TransactionInput\<close>.\<close>

record TransactionInput =
  keyImage :: KeyImage
  amount :: uint64_t
  inputBlockHeight :: uint64_t
  transactionPublicKey :: PublicKey
  transactionIndex :: uint64_t
  globalOutputIndex :: uint64_t
  key :: PublicKey
  spendHeight :: uint64_t
  inputUnlockTime :: uint64_t
  parentTransactionHash :: Hash

text \<open>\<open>struct TxInputAndOwner\<close>: an input with the keys that sign it.\<close>

record TxInputAndOwner =
  input :: TransactionInput
  ownerPublicSpendKey :: PublicKey
  ownerPrivateSpendKey :: SecretKey

text \<open>
  \<open>class Transaction\<close>. \<open>transfers\<close> is an \<open>unordered_map\<close> from public spend key to a
  signed amount, kept as an association list.
\<close>

record Transaction =
  transfers :: "(PublicKey \<times> int) list"
  hash :: Hash
  fee :: uint64_t
  blockHeight :: uint64_t
  timestamp :: uint64_t
  paymentID :: string
  unlockTime :: uint64_t
  isCoinbaseTransaction :: bool

text \<open>
  The state a \<open>Transaction\<close> is left in when it has been the source of a move assignment:
  the scalar members are copied, the map and the string are emptied.
\<close>

definition moved_from :: "Transaction \<Rightarrow> Transaction" where
  "moved_from tx = tx\<lparr>transfers := [], paymentID := []\<rparr>"

section \<open>The library algorithms the container calls\<close>

text \<open>
  \<open>std::find_if\<close>: the index of the first element that satisfies the predicate, the length
  of the vector (the end iterator) when there is none.
\<close>

fun find_if :: "('a \<Rightarrow> bool) \<Rightarrow> 'a list \<Rightarrow> nat" where
  "find_if P [] = 0"
| "find_if P (x # xs) = (if P x then 0 else Suc (find_if P xs))"

text \<open>
  \<open>std::remove_if\<close> on a vector, as the standard library writes it: find the first match;
  from there on, move every element that is to stay down to \<open>result\<close> and advance
  \<open>result\<close>. The vector keeps its length; the returned index is the new logical end.
  \<open>mv\<close> is the state of an element that has been moved from.
\<close>

definition remove_if_step :: "('a \<Rightarrow> bool) \<Rightarrow> ('a \<Rightarrow> 'a) \<Rightarrow> nat \<Rightarrow> 'a list \<times> nat \<Rightarrow> 'a list \<times> nat" where
  "remove_if_step P mv first st =
     (case st of (v, result) \<Rightarrow>
        if \<not> P (v ! first)
        then (v[result := v ! first, first := mv (v ! first)], Suc result)
        else (v, result))"

definition remove_if :: "('a \<Rightarrow> bool) \<Rightarrow> ('a \<Rightarrow> 'a) \<Rightarrow> 'a list \<Rightarrow> 'a list \<times> nat" where
  "remove_if P mv v =
     (let first = find_if P v in
      if first = length v then (v, first)
      else fold (remove_if_step P mv) [Suc first ..< length v] (v, first))"

text \<open>\<open>vector::erase(it)\<close> with one argument: the single element at \<open>it\<close> goes.\<close>

definition erase :: "nat \<Rightarrow> 'a list \<Rightarrow> 'a list" where
  "erase i v = take i v @ drop (Suc i) v"

text \<open>
  The idiom of \<open>addTransaction\<close>, \<open>removeForkedTransactions\<close>,
  \<open>removeCancelledTransactions\<close> and \<open>reset\<close>:
  \<^verbatim>\<open>const auto it = std::remove_if(v.begin(), v.end(), pred);
  if (it != v.end()) { v.erase(it); }\<close>
\<close>

definition remove_if_erase :: "(Transaction \<Rightarrow> bool) \<Rightarrow> Transaction list \<Rightarrow> Transaction list" where
  "remove_if_erase P v =
     (case remove_if P moved_from v of (v', it) \<Rightarrow>
        if it \<noteq> length v' then erase it v' else v')"

section \<open>Failures and error codes\<close>

text \<open>
  The \<open>WalletError\<close> codes that the container returns as values (the error table of the
  specification).
\<close>

datatype WalletError =
    SUCCESS
  | ILLEGAL_VIEW_WALLET_OPERATION
  | ILLEGAL_NON_VIEW_WALLET_OPERATION
  | SUBWALLET_ALREADY_EXISTS
  | NOT_ENOUGH_FUNDS
  | NO_PRIMARY_ADDRESS

text \<open>
  The ways a call can end without returning: the C++ exceptions the code throws
  (\<open>std::runtime_error\<close> and \<open>std::invalid_argument\<close> with their message,
  \<open>std::out_of_range\<close> from \<open>unordered_map::at\<close>), the unnamed failure of
  \<open>SubWallet::getInputs\<close> on a view sub-wallet, and undefined behaviour.
\<close>

datatype failure =
    runtime_error string
  | invalid_argument string
  | out_of_range
  | view_sub_wallet
  | undefined_behaviour

section \<open>The sub-wallet record\<close>

text \<open>
  Modelled from the spec: the class \<open>SubWallet\<close> (SubWallet.h and SubWallet.cpp are not
  among the sources). The record has the fields of the specification's Sub-wallet Record;
  the private spend key is absent in a view wallet; the Input Ledger is a sequence of
  inputs, each with the \<open>locked\<close> flag of the specification.
\<close>

record LedgerEntry =
  utxo :: TransactionInput
  locked :: bool

record SubWallet =
  publicSpendKey :: PublicKey
  privateSpendKey :: "SecretKey option"
  address :: string
  syncStartHeight :: uint64_t
  syncStartTimestamp :: uint64_t
  isPrimaryAddress :: bool
  ledger :: "LedgerEntry list"

text \<open>
  Modelled from the spec: the two constructors of \<open>SubWallet\<close>, with and without a private
  spend key, as the container calls them.
\<close>

definition SubWallet_new :: "PublicKey \<Rightarrow> SecretKey \<Rightarrow> string \<Rightarrow> uint64_t \<Rightarrow> uint64_t \<Rightarrow> bool \<Rightarrow> SubWallet" where
  "SubWallet_new pk sk addr scanHeight ts isPrimary =
     \<lparr>publicSpendKey = pk, privateSpendKey = Some sk, address = addr,
      syncStartHeight = scanHeight, syncStartTimestamp = ts,
      isPrimaryAddress = isPrimary, ledger = []\<rparr>"

definition SubWallet_new_view :: "PublicKey \<Rightarrow> string \<Rightarrow> uint64_t \<Rightarrow> uint64_t \<Rightarrow> bool \<Rightarrow> SubWallet" where
  "SubWallet_new_view pk addr scanHeight ts isPrimary =
     \<lparr>publicSpendKey = pk, privateSpendKey = None, address = addr,
      syncStartHeight = scanHeight, syncStartTimestamp = ts,
      isPrimaryAddress = isPrimary, ledger = []\<rparr>"

text \<open>
  Modelled from the spec: \<open>SubWallet::getInputs\<close>, the unspent, unlocked inputs as
  (input, public spend key, private spend key) triples; it fails on a view sub-wallet.
\<close>

definition getInputs :: "SubWallet \<Rightarrow> failure + TxInputAndOwner list" where
  "getInputs sw =
     (case privateSpendKey sw of
        None \<Rightarrow> Inl view_sub_wallet
      | Some sk \<Rightarrow>
          Inr (map (\<lambda>e. \<lparr>input = utxo e, ownerPublicSpendKey = publicSpendKey sw,
                          ownerPrivateSpendKey = sk\<rparr>)
                 (filter (\<lambda>e. spendHeight (utxo e) = 0 \<and> \<not> locked e) (ledger sw))))"

text \<open>
  Modelled from the spec: \<open>SubWallet::completeAndStoreTransactionInput\<close>. A full wallet
  derives the key image (\<open>derive\<close> stands for the crypto module) and stores the input
  unless that key image is stored already; a view wallet stores the input as it is.
\<close>

definition sw_completeAndStoreTransactionInput ::
  "(KeyDerivation \<Rightarrow> nat \<Rightarrow> PublicKey \<Rightarrow> SecretKey \<Rightarrow> KeyImage) \<Rightarrow>
   KeyDerivation \<Rightarrow> nat \<Rightarrow> TransactionInput \<Rightarrow> bool \<Rightarrow> SubWallet \<Rightarrow> SubWallet" where
  "sw_completeAndStoreTransactionInput derive derivation outputIndex inp isViewWallet sw =
     (case (isViewWallet, privateSpendKey sw) of
        (False, Some sk) \<Rightarrow>
          (let inp' = inp\<lparr>keyImage := derive derivation outputIndex (publicSpendKey sw) sk\<rparr>
           in if keyImage inp' \<in> set (map (\<lambda>e. keyImage (utxo e)) (ledger sw)) then sw
              else sw\<lparr>ledger := ledger sw @ [\<lparr>utxo = inp', locked = False\<rparr>]\<rparr>)
      | _ \<Rightarrow> sw\<lparr>ledger := ledger sw @ [\<lparr>utxo = inp, locked = False\<rparr>]\<rparr>)"

text \<open>
  Modelled from the spec: \<open>SubWallet::markInputAsLocked\<close> and
  \<open>SubWallet::markInputAsSpent\<close>; an unknown key image changes nothing.
\<close>

definition sw_markInputAsLocked :: "KeyImage \<Rightarrow> SubWallet \<Rightarrow> SubWallet" where
  "sw_markInputAsLocked ki sw =
     sw\<lparr>ledger := map (\<lambda>e. if keyImage (utxo e) = ki then e\<lparr>locked := True\<rparr> else e) (ledger sw)\<rparr>"

definition sw_markInputAsSpent :: "KeyImage \<Rightarrow> uint64_t \<Rightarrow> SubWallet \<Rightarrow> SubWallet" where
  "sw_markInputAsSpent ki h sw =
     sw\<lparr>ledger := map (\<lambda>e. if keyImage (utxo e) = ki
                            then \<lparr>utxo = (utxo e)\<lparr>spendHeight := h\<rparr>, locked = False\<rparr> else e)
                      (ledger sw)\<rparr>"

text \<open>
  Modelled from the spec: \<open>SubWallet::removeForkedInputs\<close>. An input received at or above
  the fork height is deleted; one spent at or above it is unspent and unlocked.
\<close>

definition sw_removeForkedInputs :: "uint64_t \<Rightarrow> SubWallet \<Rightarrow> SubWallet" where
  "sw_removeForkedInputs forkHeight sw =
     sw\<lparr>ledger :=
          map (\<lambda>e. if forkHeight \<le> spendHeight (utxo e)
                   then \<lparr>utxo = (utxo e)\<lparr>spendHeight := 0\<rparr>, locked = False\<rparr> else e)
            (filter (\<lambda>e. \<not> forkHeight \<le> inputBlockHeight (utxo e)) (ledger sw))\<rparr>"

text \<open>
  Modelled from the spec: \<open>SubWallet::removeCancelledTransactions\<close>, in the
  specification's first reading: the flag is cleared on every input whose parent
  transaction hash is one of the cancelled hashes.
\<close>

definition sw_removeCancelledTransactions :: "Hash set \<Rightarrow> SubWallet \<Rightarrow> SubWallet" where
  "sw_removeCancelledTransactions cancelled sw =
     sw\<lparr>ledger := map (\<lambda>e. if parentTransactionHash (utxo e) \<in> cancelled
                            then e\<lparr>locked := False\<rparr> else e) (ledger sw)\<rparr>"

section \<open>The container (SubWallets.cpp)\<close>

text \<open>
  \<open>m_subWallets\<close> is an \<open>unordered_map\<close>, kept as an association list: \<open>find\<close> is
  \<open>map_of\<close>, \<open>m[k] = v\<close> is \<open>AList.update\<close>, a loop over the map visits the list. The
  mutex is not modelled: the operations are taken one at a time.
\<close>

record SubWallets =
  m_subWallets :: "(PublicKey \<times> SubWallet) list"
  m_transactions :: "Transaction list"
  m_lockedTransactions :: "Transaction list"
  m_privateViewKey :: SecretKey
  m_isViewWallet :: bool
  m_publicSpendKeys :: "PublicKey list"

text \<open>
  The constructors. \<open>secret_key_to_public_key\<close> and \<open>addressToKeys\<close> are the crypto and
  address modules; \<open>now\<close> is the value of \<open>getCurrentTimestampAdjusted()\<close>.
\<close>

definition SubWallets_new ::
  "(SecretKey \<Rightarrow> PublicKey) \<Rightarrow> uint64_t \<Rightarrow>
   SecretKey \<Rightarrow> SecretKey \<Rightarrow> string \<Rightarrow> uint64_t \<Rightarrow> bool \<Rightarrow> SubWallets" where
  "SubWallets_new secret_key_to_public_key now privSpendKey privViewKey addr scanHeight newWallet =
     (let pubSpendKey = secret_key_to_public_key privSpendKey;
          ts = (if newWallet then now else 0)
      in \<lparr>m_subWallets =
             AList.update pubSpendKey (SubWallet_new pubSpendKey privSpendKey addr scanHeight ts True) [],
           m_transactions = [], m_lockedTransactions = [],
           m_privateViewKey = privViewKey, m_isViewWallet = False,
           m_publicSpendKeys = [pubSpendKey]\<rparr>)"

definition SubWallets_new_view ::
  "(string \<Rightarrow> PublicKey \<times> PublicKey) \<Rightarrow> uint64_t \<Rightarrow>
   SecretKey \<Rightarrow> string \<Rightarrow> uint64_t \<Rightarrow> bool \<Rightarrow> SubWallets" where
  "SubWallets_new_view addressToKeys now privViewKey addr scanHeight newWallet =
     (let pubSpendKey = fst (addressToKeys addr);
          ts = (if newWallet then now else 0)
      in \<lparr>m_subWallets =
             AList.update pubSpendKey (SubWallet_new_view pubSpendKey addr scanHeight ts True) [],
           m_transactions = [], m_lockedTransactions = [],
           m_privateViewKey = privViewKey, m_isViewWallet = True,
           m_publicSpendKeys = [pubSpendKey]\<rparr>)"

text \<open>
  \<open>addSubWallet\<close>. \<open>spendKey\<close> is the pair that \<open>Crypto::generate_keys\<close> produces. The
  function stores the new sub-wallet and returns; it has no \<open>m_publicSpendKeys.push_back\<close>.
\<close>

definition addSubWallet ::
  "(SecretKey \<Rightarrow> SecretKey \<Rightarrow> string) \<Rightarrow> uint64_t \<Rightarrow> PublicKey \<times> SecretKey \<Rightarrow>
   SubWallets \<Rightarrow> WalletError \<times> SubWallets" where
  "addSubWallet privateKeysToAddress now spendKey c =
     (if m_isViewWallet c then (ILLEGAL_VIEW_WALLET_OPERATION, c)
      else
        let addr = privateKeysToAddress (snd spendKey) (m_privateViewKey c)
        in (SUCCESS,
            c\<lparr>m_subWallets :=
                 AList.update (fst spendKey)
                   (SubWallet_new (fst spendKey) (snd spendKey) addr 0 now False)
                   (m_subWallets c)\<rparr>))"

definition importSubWallet ::
  "(SecretKey \<Rightarrow> PublicKey) \<Rightarrow> (SecretKey \<Rightarrow> SecretKey \<Rightarrow> string) \<Rightarrow> uint64_t \<Rightarrow>
   SecretKey \<Rightarrow> uint64_t \<Rightarrow> bool \<Rightarrow> SubWallets \<Rightarrow> WalletError \<times> SubWallets" where
  "importSubWallet secret_key_to_public_key privateKeysToAddress now privSpendKey scanHeight newWallet c =
     (if m_isViewWallet c then (ILLEGAL_VIEW_WALLET_OPERATION, c)
      else
        let pubSpendKey = secret_key_to_public_key privSpendKey;
            ts = (if newWallet then now else 0);
            addr = privateKeysToAddress privSpendKey (m_privateViewKey c)
        in if map_of (m_subWallets c) pubSpendKey \<noteq> None then (SUBWALLET_ALREADY_EXISTS, c)
           else (SUCCESS,
                 c\<lparr>m_subWallets :=
                      AList.update pubSpendKey
                        (SubWallet_new pubSpendKey privSpendKey addr scanHeight ts False)
                        (m_subWallets c),
                   m_publicSpendKeys := m_publicSpendKeys c @ [pubSpendKey]\<rparr>))"

definition importViewSubWallet ::
  "(SecretKey \<Rightarrow> PublicKey) \<Rightarrow> (PublicKey \<Rightarrow> PublicKey \<Rightarrow> string) \<Rightarrow> uint64_t \<Rightarrow>
   PublicKey \<Rightarrow> uint64_t \<Rightarrow> bool \<Rightarrow> SubWallets \<Rightarrow> WalletError \<times> SubWallets" where
  "importViewSubWallet secret_key_to_public_key publicKeysToAddress now pubSpendKey scanHeight newWallet c =
     (if \<not> m_isViewWallet c then (ILLEGAL_NON_VIEW_WALLET_OPERATION, c)
      else if map_of (m_subWallets c) pubSpendKey \<noteq> None then (SUBWALLET_ALREADY_EXISTS, c)
      else
        let ts = (if newWallet then now else 0);
            pubViewKey = secret_key_to_public_key (m_privateViewKey c);
            addr = publicKeysToAddress pubSpendKey pubViewKey
        in (SUCCESS,
            c\<lparr>m_subWallets :=
                 AList.update pubSpendKey
                   (SubWallet_new_view pubSpendKey addr scanHeight ts False)
                   (m_subWallets c),
               m_publicSpendKeys := m_publicSpendKeys c @ [pubSpendKey]\<rparr>))"

text \<open>
  \<open>std::min_element\<close>: the first smallest element under the comparison; on an empty range it
  returns the end iterator, which cannot be dereferenced (\<open>None\<close>).
\<close>

fun min_element :: "('a \<Rightarrow> 'a \<Rightarrow> bool) \<Rightarrow> 'a list \<Rightarrow> 'a option" where
  "min_element cmp [] = None"
| "min_element cmp (x # xs) = Some (fold (\<lambda>y smallest. if cmp y smallest then y else smallest) xs x)"

text \<open>
  \<open>getMinInitialSyncStart\<close>. \<open>scanHeightToTimestamp\<close> is the utilities module. The code
  dereferences the result of \<open>min_element\<close> without a check, so an empty container is
  undefined behaviour.
\<close>

definition getMinInitialSyncStart ::
  "(uint64_t \<Rightarrow> uint64_t) \<Rightarrow> SubWallets \<Rightarrow> failure + (uint64_t \<times> uint64_t)" where
  "getMinInitialSyncStart scanHeightToTimestamp c =
     (case min_element (\<lambda>lhs rhs. syncStartTimestamp (snd lhs) < syncStartTimestamp (snd rhs))
             (m_subWallets c) of
        None \<Rightarrow> Inl undefined_behaviour
      | Some minElementByTimestamp \<Rightarrow>
     (case min_element (\<lambda>lhs rhs. syncStartHeight (snd lhs) < syncStartHeight (snd rhs))
             (m_subWallets c) of
        None \<Rightarrow> Inl undefined_behaviour
      | Some minElementByHeight \<Rightarrow>
          let minTimestamp = syncStartTimestamp (snd minElementByTimestamp);
              minHeight = syncStartHeight (snd minElementByHeight)
          in if minHeight = 0 \<or> minTimestamp = 0 then Inr (minHeight, minTimestamp)
             else if scanHeightToTimestamp minHeight < minTimestamp then Inr (minHeight, 0)
             else Inr (0, minTimestamp)))"

definition addUnconfirmedTransaction :: "Transaction \<Rightarrow> SubWallets \<Rightarrow> SubWallets" where
  "addUnconfirmedTransaction tx c = c\<lparr>m_lockedTransactions := m_lockedTransactions c @ [tx]\<rparr>"

definition addTransaction :: "Transaction \<Rightarrow> SubWallets \<Rightarrow> SubWallets" where
  "addTransaction tx c =
     c\<lparr>m_lockedTransactions :=
         remove_if_erase (\<lambda>transaction. hash tx = hash transaction) (m_lockedTransactions c),
       m_transactions := m_transactions c @ [tx]\<rparr>"

text \<open>
  \<open>completeAndStoreTransactionInput\<close>: \<open>find\<close>, and the sub-wallet's own operation only
  when the key is there.
\<close>

definition completeAndStoreTransactionInput ::
  "(KeyDerivation \<Rightarrow> nat \<Rightarrow> PublicKey \<Rightarrow> SecretKey \<Rightarrow> KeyImage) \<Rightarrow>
   PublicKey \<Rightarrow> KeyDerivation \<Rightarrow> nat \<Rightarrow> TransactionInput \<Rightarrow> SubWallets \<Rightarrow> SubWallets" where
  "completeAndStoreTransactionInput derive pubSpendKey derivation outputIndex inp c =
     (case map_of (m_subWallets c) pubSpendKey of
        Some sw \<Rightarrow>
          c\<lparr>m_subWallets :=
              AList.update pubSpendKey
                (sw_completeAndStoreTransactionInput derive derivation outputIndex inp
                   (m_isViewWallet c) sw)
                (m_subWallets c)\<rparr>
      | None \<Rightarrow> c)"

definition view_wallet_message :: string where
  "view_wallet_message =
     ''Wallet is a view wallet, but this function cannot be called in a view wallet''"

definition throwIfViewWallet :: "SubWallets \<Rightarrow> failure + unit" where
  "throwIfViewWallet c =
     (if m_isViewWallet c then Inl (runtime_error view_wallet_message) else Inr ())"

text \<open>\<open>unordered_map::at\<close> throws \<open>std::out_of_range\<close> for a key that is not there.\<close>

definition map_at :: "('k \<times> 'v) list \<Rightarrow> 'k \<Rightarrow> failure + 'v" where
  "map_at m k = (case map_of m k of None \<Rightarrow> Inl out_of_range | Some v \<Rightarrow> Inr v)"

text \<open>
  The head that \<open>getTransactionInputsForAmount\<close> and \<open>getFusionTransactionInputs\<close> share,
  line for line: the keys to take from, the loop that looks each wallet up with \<open>at\<close>, the
  loop that appends each wallet's \<open>getInputs()\<close>.
\<close>

fun lookupWallets :: "(PublicKey \<times> SubWallet) list \<Rightarrow> PublicKey list \<Rightarrow> failure + SubWallet list" where
  "lookupWallets m [] = Inr []"
| "lookupWallets m (publicKey # rest) =
     (case map_at m publicKey of
        Inl e \<Rightarrow> Inl e
      | Inr w \<Rightarrow> (case lookupWallets m rest of Inl e \<Rightarrow> Inl e | Inr ws \<Rightarrow> Inr (w # ws)))"

fun collectInputs :: "SubWallet list \<Rightarrow> failure + TxInputAndOwner list" where
  "collectInputs [] = Inr []"
| "collectInputs (subWallet # rest) =
     (case getInputs subWallet of
        Inl e \<Rightarrow> Inl e
      | Inr moreInputs \<Rightarrow>
          (case collectInputs rest of Inl e \<Rightarrow> Inl e | Inr inputs \<Rightarrow> Inr (moreInputs @ inputs)))"

definition availableInputs :: "SubWallets \<Rightarrow> bool \<Rightarrow> PublicKey list \<Rightarrow> failure + TxInputAndOwner list" where
  "availableInputs c takeFromAll subWalletsToTakeFrom =
     (case lookupWallets (m_subWallets c)
             (if takeFromAll then m_publicSpendKeys c else subWalletsToTakeFrom) of
        Inl e \<Rightarrow> Inl e
      | Inr wallets \<Rightarrow> collectInputs wallets)"

text \<open>
  The selection loop of \<open>getTransactionInputsForAmount\<close>: push the input, add its amount
  (\<open>uint64_t\<close> addition), then test; falling out of the loop throws.
\<close>

definition not_enough_funds_message :: string where
  "not_enough_funds_message = ''Not enough funds found!''"

fun selectInputs ::
  "uint64_t \<Rightarrow> TxInputAndOwner list \<Rightarrow> TxInputAndOwner list \<Rightarrow> uint64_t \<Rightarrow>
   failure + (TxInputAndOwner list \<times> uint64_t)" where
  "selectInputs target [] inputsToUse foundMoney = Inl (invalid_argument not_enough_funds_message)"
| "selectInputs target (walletAmount # rest) inputsToUse foundMoney =
     (let inputsToUse' = inputsToUse @ [walletAmount];
          foundMoney' = foundMoney + amount (input walletAmount)
      in if target \<le> foundMoney' then Inr (inputsToUse', foundMoney')
         else selectInputs target rest inputsToUse' foundMoney')"

text \<open>
  \<open>getTransactionInputsForAmount\<close>. \<open>shuffle\<close> is the permutation that \<open>std::shuffle\<close> with
  \<open>std::random_device\<close> applies in this call.
\<close>

definition getTransactionInputsForAmount ::
  "(TxInputAndOwner list \<Rightarrow> TxInputAndOwner list) \<Rightarrow>
   SubWallets \<Rightarrow> uint64_t \<Rightarrow> bool \<Rightarrow> PublicKey list \<Rightarrow>
   failure + (TxInputAndOwner list \<times> uint64_t)" where
  "getTransactionInputsForAmount shuffle c target takeFromAll subWalletsToTakeFrom =
     (case throwIfViewWallet c of
        Inl e \<Rightarrow> Inl e
      | Inr _ \<Rightarrow>
          (case availableInputs c takeFromAll subWalletsToTakeFrom of
             Inl e \<Rightarrow> Inl e
           | Inr inputs \<Rightarrow> selectInputs target (shuffle inputs) [] 0))"

text \<open>
  The environment of \<open>getFusionTransactionInputs\<close>: the permutations the two
  \<open>std::shuffle\<close> calls apply, the order in which a loop visits the \<open>unordered_map\<close> of
  buckets, the truncated value of the C library's \<open>log10\<close> on a positive amount, and the
  currency module (\<open>approximateMaximumInputCount\<close> is
  \<open>Currency::getApproximateMaximumInputCount\<close> at \<open>FUSION_TX_MAX_SIZE\<close> and
  \<open>FUSION_TX_MIN_IN_OUT_COUNT_RATIO\<close>, a function of the mixin).
\<close>

record FusionEnv =
  shuffleInputs :: "TxInputAndOwner list \<Rightarrow> TxInputAndOwner list"
  shuffleBuckets :: "TxInputAndOwner list list \<Rightarrow> TxInputAndOwner list list"
  bucketOrder :: "(uint64_t \<times> TxInputAndOwner list) list \<Rightarrow> (uint64_t \<times> TxInputAndOwner list) list"
  log10_truncated :: "uint64_t \<Rightarrow> int"
  approximateMaximumInputCount :: "uint64_t \<Rightarrow> uint64_t"
  FUSION_TX_MIN_INPUT_COUNT :: nat

text \<open>
  \<^verbatim>\<open>int numberOfDigits = log10(walletAmount.input.amount);\<close>
  The amount becomes a double, \<open>log10\<close> is taken and the double is converted to \<open>int\<close>. For
  a positive amount that is the truncated logarithm. \<open>log10(0)\<close> is minus infinity, which
  no \<open>int\<close> holds: the conversion is undefined, and the line has no test for zero before
  it. \<open>None\<close> is that case.
\<close>

definition numberOfDigits :: "(uint64_t \<Rightarrow> int) \<Rightarrow> uint64_t \<Rightarrow> int option" where
  "numberOfDigits log10t a = (if a = 0 then None else Some (log10t a))"

text \<open>
  The arithmetic behind that line for a positive amount, in IEEE 754 double precision. A
  double has a 53-bit significand: between \<open>2^e\<close> and \<open>2^(e+1)\<close> the doubles are the
  multiples of \<open>2^(e-52)\<close>, and \<open>to_double\<close> takes a real number to the nearest of them
  (halfway cases, which IEEE settles by the even significand, go up here; overflow and
  subnormal numbers are out of the range of a \<open>uint64_t\<close> and its logarithm).
  \<open>double_log10_truncated\<close> converts the amount to a double, takes \<open>log10\<close> rounded to
  the nearest double, and truncates; for an amount of at least 1 the logarithm is not
  negative and truncation is the floor.
\<close>

definition to_double :: "real \<Rightarrow> real" where
  "to_double x =
     (if x = 0 then 0
      else let ulp = 2 powr (of_int \<lfloor>log 2 \<bar>x\<bar>\<rfloor> - 52)
           in of_int (round (x / ulp)) * ulp)"

definition double_log10_truncated :: "uint64_t \<Rightarrow> int" where
  "double_log10_truncated a = \<lfloor>to_double (log 10 (to_double (real (unat a))))\<rfloor>"

text \<open>
  \<open>buckets[numberOfDigits].push_back(walletAmount)\<close>: the key of the map is a \<open>uint64_t\<close>,
  so the \<open>int\<close> is converted; \<open>operator[]\<close> makes an empty vector for a new key.
\<close>

definition push_bucket ::
  "uint64_t \<Rightarrow> TxInputAndOwner \<Rightarrow> (uint64_t \<times> TxInputAndOwner list) list \<Rightarrow>
   (uint64_t \<times> TxInputAndOwner list) list" where
  "push_bucket k w buckets =
     AList.update k ((case map_of buckets k of None \<Rightarrow> [] | Some b \<Rightarrow> b) @ [w]) buckets"

fun fillBuckets ::
  "(uint64_t \<Rightarrow> int) \<Rightarrow> TxInputAndOwner list \<Rightarrow> (uint64_t \<times> TxInputAndOwner list) list \<Rightarrow>
   failure + (uint64_t \<times> TxInputAndOwner list) list" where
  "fillBuckets log10t [] buckets = Inr buckets"
| "fillBuckets log10t (walletAmount # rest) buckets =
     (case numberOfDigits log10t (amount (input walletAmount)) of
        None \<Rightarrow> Inl undefined_behaviour
      | Some n \<Rightarrow> fillBuckets log10t rest (push_bucket (word_of_int n) walletAmount buckets))"

text \<open>
  The two nested loops at the end of \<open>getFusionTransactionInputs\<close>. The inner loop says
  whether it returned (\<open>True\<close>) or ran to the end of its bucket.
\<close>

fun takeFromBucket ::
  "uint64_t \<Rightarrow> TxInputAndOwner list \<Rightarrow> TxInputAndOwner list \<times> uint64_t \<Rightarrow>
   bool \<times> TxInputAndOwner list \<times> uint64_t" where
  "takeFromBucket maxInputsToTake [] st = (False, st)"
| "takeFromBucket maxInputsToTake (walletAmount # rest) st =
     (case st of (inputsToUse, foundMoney) \<Rightarrow>
        let inputsToUse' = inputsToUse @ [walletAmount];
            foundMoney' = foundMoney + amount (input walletAmount)
        in if unat maxInputsToTake \<le> length inputsToUse' then (True, inputsToUse', foundMoney')
           else takeFromBucket maxInputsToTake rest (inputsToUse', foundMoney'))"

fun takeFromBuckets ::
  "uint64_t \<Rightarrow> TxInputAndOwner list list \<Rightarrow> TxInputAndOwner list \<times> uint64_t \<Rightarrow>
   TxInputAndOwner list \<times> uint64_t" where
  "takeFromBuckets maxInputsToTake [] st = st"
| "takeFromBuckets maxInputsToTake (bucket # rest) st =
     (case takeFromBucket maxInputsToTake bucket st of
        (True, st') \<Rightarrow> st'
      | (False, st') \<Rightarrow> takeFromBuckets maxInputsToTake rest st')"

definition getFusionTransactionInputs ::
  "FusionEnv \<Rightarrow> SubWallets \<Rightarrow> bool \<Rightarrow> PublicKey list \<Rightarrow> uint64_t \<Rightarrow>
   failure + (TxInputAndOwner list \<times> uint64_t \<times> uint64_t)" where
  "getFusionTransactionInputs env c takeFromAll subWalletsToTakeFrom mixin =
     (case throwIfViewWallet c of
        Inl e \<Rightarrow> Inl e
      | Inr _ \<Rightarrow>
     (case availableInputs c takeFromAll subWalletsToTakeFrom of
        Inl e \<Rightarrow> Inl e
      | Inr inputs \<Rightarrow>
          let maxInputsToTake = approximateMaximumInputCount env mixin
          in (case fillBuckets (log10_truncated env) (shuffleInputs env inputs) [] of
                Inl e \<Rightarrow> Inl e
              | Inr buckets \<Rightarrow>
                  let fullBuckets =
                        shuffleBuckets env
                          (map snd (filter (\<lambda>(n, bucket). FUSION_TX_MIN_INPUT_COUNT env \<le> length bucket)
                                      (bucketOrder env buckets)));
                      bucketsToTakeFrom =
                        (case fullBuckets of
                           front # _ \<Rightarrow> [front]
                         | [] \<Rightarrow> map snd (bucketOrder env buckets))
                  in (case takeFromBuckets maxInputsToTake bucketsToTakeFrom ([], 0) of
                        (inputsToUse, foundMoney) \<Rightarrow>
                          Inr (inputsToUse, maxInputsToTake, foundMoney)))))"

text \<open>A loop \<open>for (auto &[publicKey, subWallet] : m_subWallets)\<close> that updates each wallet.\<close>

definition for_each_subWallet :: "(SubWallet \<Rightarrow> SubWallet) \<Rightarrow> SubWallets \<Rightarrow> SubWallets" where
  "for_each_subWallet f c = c\<lparr>m_subWallets := map (\<lambda>(publicKey, subWallet). (publicKey, f subWallet)) (m_subWallets c)\<rparr>"

definition markInputAsSpent :: "KeyImage \<Rightarrow> PublicKey \<Rightarrow> uint64_t \<Rightarrow> SubWallets \<Rightarrow> failure + SubWallets" where
  "markInputAsSpent ki publicKey h c =
     (case throwIfViewWallet c of
        Inl e \<Rightarrow> Inl e
      | Inr _ \<Rightarrow>
          (case map_at (m_subWallets c) publicKey of
             Inl e \<Rightarrow> Inl e
           | Inr sw \<Rightarrow>
               Inr (c\<lparr>m_subWallets :=
                        AList.update publicKey (sw_markInputAsSpent ki h sw) (m_subWallets c)\<rparr>)))"

definition markInputAsLocked :: "KeyImage \<Rightarrow> PublicKey \<Rightarrow> SubWallets \<Rightarrow> failure + SubWallets" where
  "markInputAsLocked ki publicKey c =
     (case throwIfViewWallet c of
        Inl e \<Rightarrow> Inl e
      | Inr _ \<Rightarrow>
          (case map_at (m_subWallets c) publicKey of
             Inl e \<Rightarrow> Inl e
           | Inr sw \<Rightarrow>
               Inr (c\<lparr>m_subWallets :=
                        AList.update publicKey (sw_markInputAsLocked ki sw) (m_subWallets c)\<rparr>)))"

definition removeForkedTransactions :: "uint64_t \<Rightarrow> SubWallets \<Rightarrow> SubWallets" where
  "removeForkedTransactions forkHeight c =
     for_each_subWallet (sw_removeForkedInputs forkHeight)
       (c\<lparr>m_transactions :=
            remove_if_erase (\<lambda>tx. forkHeight \<le> blockHeight tx) (m_transactions c)\<rparr>)"

definition removeCancelledTransactions :: "Hash set \<Rightarrow> SubWallets \<Rightarrow> failure + SubWallets" where
  "removeCancelledTransactions cancelledTransactions c =
     (case throwIfViewWallet c of
        Inl e \<Rightarrow> Inl e
      | Inr _ \<Rightarrow>
          Inr (for_each_subWallet (sw_removeCancelledTransactions cancelledTransactions)
                 (c\<lparr>m_lockedTransactions :=
                      remove_if_erase (\<lambda>tx. hash tx \<in> cancelledTransactions)
                        (m_lockedTransactions c)\<rparr>)))"

definition getLockedTransactionsHashes :: "SubWallets \<Rightarrow> failure + Hash set" where
  "getLockedTransactionsHashes c =
     (case throwIfViewWallet c of
        Inl e \<Rightarrow> Inl e
      | Inr _ \<Rightarrow> Inr (set (map hash (m_lockedTransactions c))))"

section \<open>Notions the properties speak of\<close>

text \<open>The total of the amounts of a list of inputs, as a natural number (no wrap-around).\<close>

definition total_amount :: "TxInputAndOwner list \<Rightarrow> nat" where
  "total_amount ws = sum_list (map (\<lambda>w. unat (amount (input w))) ws)"

text \<open>The floor of the base-10 logarithm of an amount: the power of ten the amount is in.\<close>

definition floor_log10 :: "uint64_t \<Rightarrow> int" where
  "floor_log10 a = \<lfloor>log 10 (real (unat a))\<rfloor>"

text \<open>
  The key under which \<open>fillBuckets\<close> files an input of positive amount, and the members of
  the bucket with key \<open>k\<close> among a list of candidates.
\<close>

definition bucketOf :: "(uint64_t \<Rightarrow> int) \<Rightarrow> TxInputAndOwner \<Rightarrow> uint64_t" where
  "bucketOf log10t w = word_of_int (log10t (amount (input w)))"

definition bucketMembers ::
  "(uint64_t \<Rightarrow> int) \<Rightarrow> uint64_t \<Rightarrow> TxInputAndOwner list \<Rightarrow> TxInputAndOwner list" where
  "bucketMembers log10t k ws = filter (\<lambda>w. bucketOf log10t w = k) ws"

section \<open>Concrete wallets\<close>

text \<open>
  Stand-ins for the crypto, address and currency modules, and small wallets built with the
  container's own operations, on which the theorems below are run.
\<close>

definition example_secret_key_to_public_key :: "SecretKey \<Rightarrow> PublicKey" where
  "example_secret_key_to_public_key sk = (case sk of SecretKey n \<Rightarrow> PublicKey n)"

definition example_privateKeysToAddress :: "SecretKey \<Rightarrow> SecretKey \<Rightarrow> string" where
  "example_privateKeysToAddress spend view = ''address''"

definition example_addressToKeys :: "string \<Rightarrow> PublicKey \<times> PublicKey" where
  "example_addressToKeys addr = (PublicKey 11, PublicKey 100)"

definition example_derive :: "KeyDerivation \<Rightarrow> nat \<Rightarrow> PublicKey \<Rightarrow> SecretKey \<Rightarrow> KeyImage" where
  "example_derive d i pk sk = (case d of KeyDerivation n \<Rightarrow> KeyImage (n + i))"

definition example_scanHeightToTimestamp :: "uint64_t \<Rightarrow> uint64_t" where
  "example_scanHeightToTimestamp h = 1500000000 + 30 * h"

definition example_wallet :: SubWallets where
  "example_wallet =
     SubWallets_new example_secret_key_to_public_key 0 (SecretKey 11) (SecretKey 100)
       ''primary'' 0 False"

definition example_view_wallet :: SubWallets where
  "example_view_wallet =
     SubWallets_new_view example_addressToKeys 0 (SecretKey 100) ''primary'' 0 False"

text \<open>Two sub-wallets, both with a start height and a start timestamp.\<close>

definition example_two_wallets :: SubWallets where
  "example_two_wallets =
     snd (importSubWallet example_secret_key_to_public_key example_privateKeysToAddress
            1600000000 (SecretKey 12) 500000 True
            (SubWallets_new example_secret_key_to_public_key 1700000000 (SecretKey 11)
               (SecretKey 100) ''primary'' 400000 True))"

definition example_input :: "uint64_t \<Rightarrow> TransactionInput" where
  "example_input a =
     \<lparr>keyImage = KeyImage 0, amount = a, inputBlockHeight = 10,
      transactionPublicKey = PublicKey 7, transactionIndex = 0, globalOutputIndex = 0,
      key = PublicKey 8, spendHeight = 0, inputUnlockTime = 0,
      parentTransactionHash = Hash 3\<rparr>"

text \<open>\<open>funded n a c\<close>: the scanner hands the primary sub-wallet of \<open>c\<close> an input of amount \<open>a\<close>.\<close>

definition funded :: "nat \<Rightarrow> uint64_t \<Rightarrow> SubWallets \<Rightarrow> SubWallets" where
  "funded n a c =
     completeAndStoreTransactionInput example_derive (PublicKey 11) (KeyDerivation n) 0
       (example_input a) c"

text \<open>The input that \<open>funded n a\<close> stores, with its owner's keys.\<close>

definition owned :: "nat \<Rightarrow> uint64_t \<Rightarrow> TxInputAndOwner" where
  "owned n a =
     \<lparr>input = (example_input a)\<lparr>keyImage := KeyImage n\<rparr>,
      ownerPublicSpendKey = PublicKey 11, ownerPrivateSpendKey = SecretKey 11\<rparr>"

definition example_tx :: "nat \<Rightarrow> uint64_t \<Rightarrow> Transaction" where
  "example_tx h height =
     \<lparr>transfers = [], hash = Hash h, fee = 10, blockHeight = height, timestamp = 0,
      paymentID = [], unlockTime = 0, isCoinbaseTransaction = False\<rparr>"

text \<open>The truncated \<open>log10\<close> on the amounts the examples use (below 10000).\<close>

definition example_log10 :: "uint64_t \<Rightarrow> int" where
  "example_log10 a = (if a < 10 then 0 else if a < 100 then 1 else if a < 1000 then 2 else 3)"

definition example_env :: FusionEnv where
  "example_env =
     \<lparr>shuffleInputs = rev, shuffleBuckets = rev, bucketOrder = (\<lambda>buckets. buckets),
      log10_truncated = example_log10, approximateMaximumInputCount = (\<lambda>mixin. 3),
      FUSION_TX_MIN_INPUT_COUNT = 2\<rparr>"

text \<open>The same environment with the logarithm in double precision.\<close>

definition double_env :: FusionEnv where
  "double_env = example_env\<lparr>log10_truncated := double_log10_truncated\<rparr>"

text \<open>A wallet with inputs of \<open>10^15 - 1\<close>, \<open>10^15\<close> and \<open>10^15 + 1\<close>.\<close>

definition near_power_wallet :: SubWallets where
  "near_power_wallet =
     funded 23 1000000000000001 (funded 22 1000000000000000
       (funded 21 999999999999999 example_wallet))"

section \<open>Facts about the concrete wallets\<close>

lemmas example_defs =
  example_secret_key_to_public_key_def example_privateKeysToAddress_def
  example_addressToKeys_def example_derive_def example_wallet_def example_view_wallet_def
  example_input_def funded_def owned_def
  SubWallets_new_def SubWallets_new_view_def SubWallet_new_def SubWallet_new_view_def Let_def

lemmas gather_defs =
  availableInputs_def map_at_def getInputs_def completeAndStoreTransactionInput_def
  sw_completeAndStoreTransactionInput_def

lemma funded_isViewWallet [simp]: "m_isViewWallet (funded n a c) = m_isViewWallet c"
  by (simp add: funded_def completeAndStoreTransactionInput_def split: option.splits)

lemma example_wallet_isViewWallet [simp]: "\<not> m_isViewWallet example_wallet"
  by (simp add: example_wallet_def SubWallets_new_def Let_def)

lemma example_view_wallet_isViewWallet [simp]: "m_isViewWallet example_view_wallet"
  by (simp add: example_view_wallet_def SubWallets_new_view_def Let_def)

lemma amount_owned [simp]: "amount (input (owned n a)) = a"
  by (simp add: owned_def example_input_def)

lemma availableInputs_example_wallet: "availableInputs example_wallet True [] = Inr []"
  by (simp add: example_defs gather_defs)

lemma availableInputs_unknown_key:
  "availableInputs example_wallet False [PublicKey 99] = Inl out_of_range"
  by (simp add: example_defs gather_defs)

lemma availableInputs_funded:
  "availableInputs (funded 21 5 example_wallet) True [] = Inr [owned 21 5]"
  by (simp add: example_defs gather_defs)

lemma availableInputs_funded2:
  "availableInputs (funded 22 7 (funded 21 5 example_wallet)) True []
     = Inr [owned 21 5, owned 22 7]"
  by (simp add: example_defs gather_defs)

lemma availableInputs_funded3:
  "availableInputs (funded 23 20 (funded 22 5 (funded 21 1 example_wallet))) True []
     = Inr [owned 21 1, owned 22 5, owned 23 20]"
  by (simp add: example_defs gather_defs)

lemma availableInputs_funded_zero:
  "availableInputs (funded 21 0 example_wallet) True [] = Inr [owned 21 0]"
  by (simp add: example_defs gather_defs)

lemma availableInputs_funded_big:
  "availableInputs (funded 22 9223372036854775808 (funded 21 9223372036854775808 example_wallet))
       True []
     = Inr [owned 21 9223372036854775808, owned 22 9223372036854775808]"
  by (simp add: example_defs gather_defs)

lemma near_power_wallet_isViewWallet [simp]: "\<not> m_isViewWallet near_power_wallet"
  by (simp add: near_power_wallet_def)

lemma availableInputs_near_power_wallet:
  "availableInputs near_power_wallet True []
     = Inr [owned 21 999999999999999, owned 22 1000000000000000, owned 23 1000000000000001]"
  by (simp add: near_power_wallet_def example_defs gather_defs)

lemma m_subWallets_example_two_wallets:
  "m_subWallets example_two_wallets =
     [(PublicKey 11, SubWallet_new (PublicKey 11) (SecretKey 11) ''primary'' 400000 1700000000 True),
      (PublicKey 12, SubWallet_new (PublicKey 12) (SecretKey 12) ''address'' 500000 1600000000 False)]"
  by (simp add: example_two_wallets_def importSubWallet_def SubWallets_new_def Let_def
      example_secret_key_to_public_key_def example_privateKeysToAddress_def)

section \<open>The transaction journal\<close>

lemma find_if_last:
  assumes "\<forall>y \<in> set xs. \<not> P y" and "P x"
  shows "find_if P (xs @ [x]) = length xs"
  using assms by (induction xs) simp_all

text \<open>
  When the only match is the last element, \<open>remove_if\<close> moves nothing and returns its
  position, and the one-element \<open>erase\<close> removes it.
\<close>

lemma remove_if_erase_last:
  assumes "\<forall>y \<in> set xs. \<not> P y" and "P x"
  shows "remove_if_erase P (xs @ [x]) = xs"
  using assms by (simp add: remove_if_erase_def remove_if_def find_if_last erase_def)

text \<open>
  C1. \<open>removeForkedTransactions\<close> is to drop every confirmed entry at or above the fork
  height. With two confirmed entries at heights 25 and 30 and fork height 20, \<open>remove_if\<close>
  keeps nothing and returns the first position; \<open>erase(it)\<close> removes that one element
  only, and the entry at height 30 is still in \<open>m_transactions\<close> after the call.
\<close>

theorem removeForkedTransactions_keeps_forked_entry:
  "m_transactions (removeForkedTransactions 20
       (example_wallet\<lparr>m_transactions := [example_tx 41 25, example_tx 42 30]\<rparr>))
     = [example_tx 42 30]
   \<and> (20 :: uint64_t) \<le> blockHeight (example_tx 42 30)"
  by (simp add: removeForkedTransactions_def for_each_subWallet_def remove_if_erase_def
      remove_if_def remove_if_step_def erase_def example_tx_def)

text \<open>
  C9, as stated, fails on two states. When \<open>tx\<close> is already confirmed, \<open>addTransaction\<close>
  appends it a second time. When \<open>locked_transactions\<close> already holds an entry with the
  hash of \<open>tx\<close>, one entry with that hash is left after the two calls.
\<close>

theorem confirmation_collapse_fails:
  "count_list (m_transactions (addTransaction (example_tx 41 5)
      (addUnconfirmedTransaction (example_tx 41 5)
         (example_wallet\<lparr>m_transactions := [example_tx 41 5]\<rparr>)))) (example_tx 41 5) = 2
   \<and> m_lockedTransactions (addTransaction (example_tx 41 5)
      (addUnconfirmedTransaction (example_tx 41 5)
         (example_wallet\<lparr>m_lockedTransactions := [example_tx 41 5]\<rparr>))) = [example_tx 41 5]"
  by (simp add: addTransaction_def addUnconfirmedTransaction_def remove_if_erase_def
      remove_if_def remove_if_step_def erase_def example_tx_def example_wallet_def
      SubWallets_new_def)

text \<open>
  C9, amended. In a state whose locked transactions hold no entry with the hash of \<open>tx\<close>,
  \<open>addUnconfirmedTransaction tx\<close> followed by \<open>addTransaction tx\<close> changes the container
  in exactly one way: \<open>tx\<close> is appended to the confirmed transactions. So \<open>tx\<close> occurs
  there once more than before (exactly once if it was absent), the locked transactions
  are what they were, and none of them has the hash of \<open>tx\<close>.
\<close>

theorem confirmation_collapse:
  assumes "\<forall>t \<in> set (m_lockedTransactions c). hash t \<noteq> hash tx"
  shows "addTransaction tx (addUnconfirmedTransaction tx c)
           = c\<lparr>m_transactions := m_transactions c @ [tx]\<rparr>
     \<and> count_list (m_transactions (addTransaction tx (addUnconfirmedTransaction tx c))) tx
           = Suc (count_list (m_transactions c) tx)
     \<and> hash tx \<notin> hash ` set (m_lockedTransactions
                                 (addTransaction tx (addUnconfirmedTransaction tx c)))"
proof -
  have "remove_if_erase (\<lambda>transaction. hash tx = hash transaction)
          (m_lockedTransactions c @ [tx]) = m_lockedTransactions c"
    using assms by (intro remove_if_erase_last) auto
  then have "addTransaction tx (addUnconfirmedTransaction tx c)
               = c\<lparr>m_transactions := m_transactions c @ [tx]\<rparr>"
    by (simp add: addTransaction_def addUnconfirmedTransaction_def)
  with assms show ?thesis by auto
qed

theorem confirmation_collapse_witness:
  "m_lockedTransactions (example_wallet\<lparr>m_lockedTransactions := [example_tx 42 0]\<rparr>)
     = [example_tx 42 0]
   \<and> hash (example_tx 42 0) \<noteq> hash (example_tx 41 5)
   \<and> m_transactions (addTransaction (example_tx 41 5) (addUnconfirmedTransaction (example_tx 41 5)
         (example_wallet\<lparr>m_lockedTransactions := [example_tx 42 0]\<rparr>))) = [example_tx 41 5]
   \<and> m_lockedTransactions (addTransaction (example_tx 41 5) (addUnconfirmedTransaction (example_tx 41 5)
         (example_wallet\<lparr>m_lockedTransactions := [example_tx 42 0]\<rparr>))) = [example_tx 42 0]"
proof -
  have h: "\<forall>t \<in> set (m_lockedTransactions (example_wallet\<lparr>m_lockedTransactions := [example_tx 42 0]\<rparr>)).
       hash t \<noteq> hash (example_tx 41 5)"
    by (simp add: example_tx_def)
  show ?thesis
    using confirmation_collapse [OF h]
    by (simp add: example_wallet_def SubWallets_new_def Let_def example_tx_def)
qed

section \<open>Sub-wallet management\<close>

text \<open>
  C2. \<open>public_spend_keys\<close> is to equal the key set of \<open>sub_wallets\<close> after every
  operation. On a freshly constructed full wallet, \<open>addSubWallet\<close> succeeds and stores the
  new sub-wallet under its key, but \<open>m_publicSpendKeys\<close> still holds the primary key only:
  unlike the constructors, \<open>importSubWallet\<close> and \<open>importViewSubWallet\<close>, it never
  appends the key.
\<close>

theorem addSubWallet_omits_publicSpendKey:
  "(case addSubWallet example_privateKeysToAddress 0 (PublicKey 12, SecretKey 12) example_wallet of
      (r, c) \<Rightarrow> r = SUCCESS \<and> set (m_publicSpendKeys c) = {PublicKey 11}
         \<and> fst ` set (m_subWallets c) = {PublicKey 11, PublicKey 12})"
  by (auto simp add: addSubWallet_def example_defs)

text \<open>
  C10. \<open>completeAndStoreTransactionInput\<close> with a public spend key that is not a key of
  \<open>m_subWallets\<close> returns (the function has no failure) and leaves the whole container as
  it was.
\<close>

theorem completeAndStoreTransactionInput_unknown_key:
  assumes "pubSpendKey \<notin> fst ` set (m_subWallets c)"
  shows "completeAndStoreTransactionInput derive pubSpendKey derivation outputIndex inp c = c"
proof -
  have "map_of (m_subWallets c) pubSpendKey = None"
    using assms by (simp add: map_of_eq_None_iff)
  then show ?thesis
    by (simp add: completeAndStoreTransactionInput_def)
qed

theorem completeAndStoreTransactionInput_unknown_key_witness:
  "PublicKey 99 \<notin> fst ` set (m_subWallets example_wallet)
   \<and> completeAndStoreTransactionInput example_derive (PublicKey 99) (KeyDerivation 21) 0
        (example_input 5) example_wallet = example_wallet"
proof -
  have h: "PublicKey 99 \<notin> fst ` set (m_subWallets example_wallet)"
    by (simp add: example_defs)
  show ?thesis
    using h completeAndStoreTransactionInput_unknown_key [OF h] by simp
qed

section \<open>Minimum initial sync start\<close>

lemma fold_min_value:
  fixes f :: "'a \<Rightarrow> 'b::linorder"
  shows "f (fold (\<lambda>y smallest. if f y < f smallest then y else smallest) xs x)
         = Min (insert (f x) (f ` set xs))"
proof (induction xs arbitrary: x)
  case Nil
  show ?case by simp
next
  case (Cons y xs)
  have fin: "finite (f ` set xs)" by simp
  have "Min (insert (f (if f y < f x then y else x)) (f ` set xs))
        = Min (insert (f x) (insert (f y) (f ` set xs)))"
  proof (cases "f ` set xs = {}")
    case True
    then show ?thesis by (auto simp: min_def)
  next
    case False
    then show ?thesis using fin by (auto simp: min_def)
  qed
  with Cons.IH [of "if f y < f x then y else x"] show ?case by simp
qed

lemma min_element_value:
  fixes f :: "'a \<Rightarrow> 'b::linorder"
  assumes "xs \<noteq> []"
  shows "\<exists>m. min_element (\<lambda>lhs rhs. f lhs < f rhs) xs = Some m \<and> f m = Min (f ` set xs)"
  using assms by (cases xs) (simp_all add: fold_min_value)

text \<open>
  C6. On a container with at least one sub-wallet, \<open>getMinInitialSyncStart\<close> returns a
  pair (height, timestamp) of which at most one component is nonzero. With \<open>H\<close> the
  minimum start height and \<open>T\<close> the minimum start timestamp over all sub-wallets, the
  pair is \<open>(H, T)\<close> if \<open>H = 0\<close> or \<open>T = 0\<close>, else \<open>(H, 0)\<close> if
  \<open>scanHeightToTimestamp H < T\<close>, else \<open>(0, T)\<close>.
\<close>

theorem getMinInitialSyncStart_minimum:
  assumes "m_subWallets c \<noteq> []"
  shows "\<exists>height timestamp.
           getMinInitialSyncStart scanHeightToTimestamp c = Inr (height, timestamp)
         \<and> (height = 0 \<or> timestamp = 0)
         \<and> (height, timestamp) =
             (let H = Min ((\<lambda>p. syncStartHeight (snd p)) ` set (m_subWallets c));
                  T = Min ((\<lambda>p. syncStartTimestamp (snd p)) ` set (m_subWallets c))
              in if H = 0 \<or> T = 0 then (H, T)
                 else if scanHeightToTimestamp H < T then (H, 0) else (0, T))"
proof -
  obtain mt where mt:
    "min_element (\<lambda>lhs rhs. syncStartTimestamp (snd lhs) < syncStartTimestamp (snd rhs))
       (m_subWallets c) = Some mt"
    "syncStartTimestamp (snd mt) = Min ((\<lambda>p. syncStartTimestamp (snd p)) ` set (m_subWallets c))"
    using min_element_value [OF assms, of "\<lambda>p. syncStartTimestamp (snd p)"] by blast
  obtain mh where mh:
    "min_element (\<lambda>lhs rhs. syncStartHeight (snd lhs) < syncStartHeight (snd rhs))
       (m_subWallets c) = Some mh"
    "syncStartHeight (snd mh) = Min ((\<lambda>p. syncStartHeight (snd p)) ` set (m_subWallets c))"
    using min_element_value [OF assms, of "\<lambda>p. syncStartHeight (snd p)"] by blast
  show ?thesis
    unfolding getMinInitialSyncStart_def by (simp add: mt mh Let_def)
qed

theorem getMinInitialSyncStart_minimum_witness:
  "m_subWallets example_two_wallets \<noteq> []
   \<and> getMinInitialSyncStart example_scanHeightToTimestamp example_two_wallets = Inr (400000, 0)"
proof -
  have h: "m_subWallets example_two_wallets \<noteq> []"
    by (simp add: m_subWallets_example_two_wallets)
  show ?thesis
    using h getMinInitialSyncStart_minimum [OF h, of example_scanHeightToTimestamp]
    by (auto simp: m_subWallets_example_two_wallets SubWallet_new_def
        example_scanHeightToTimestamp_def Let_def)
qed

section \<open>The view-wallet guard\<close>

text \<open>
  C3, as stated, fails: on the view wallet built from an address,
  \<open>getTransactionInputsForAmount(1, true, [])\<close> does not return or carry the code
  \<open>ILLEGAL_VIEW_WALLET_OPERATION\<close>; \<open>throwIfViewWallet\<close> throws a \<open>std::runtime_error\<close>.
\<close>

theorem view_wallet_send_raises_runtime_error:
  "getTransactionInputsForAmount (\<lambda>inputs. inputs) example_view_wallet 1 True []
     = Inl (runtime_error
         ''Wallet is a view wallet, but this function cannot be called in a view wallet'')"
  by (simp add: getTransactionInputsForAmount_def throwIfViewWallet_def view_wallet_message_def)

text \<open>
  C3, amended. On every container with the view flag set, each operation that needs a
  private spend key (standard and fusion input selection, marking an input locked or
  spent, removing cancelled transactions, listing the locked transaction hashes) fails
  before it reads or changes anything, by throwing the \<open>std::runtime_error\<close> of
  \<open>throwIfViewWallet\<close>.
\<close>

theorem view_wallet_operations_throw:
  assumes "m_isViewWallet c"
  shows "getTransactionInputsForAmount shuffle c target takeFromAll keys
           = Inl (runtime_error view_wallet_message)
    \<and> getFusionTransactionInputs env c takeFromAll keys mixin
           = Inl (runtime_error view_wallet_message)
    \<and> markInputAsLocked ki pk c = Inl (runtime_error view_wallet_message)
    \<and> markInputAsSpent ki pk h c = Inl (runtime_error view_wallet_message)
    \<and> removeCancelledTransactions cancelled c = Inl (runtime_error view_wallet_message)
    \<and> getLockedTransactionsHashes c = Inl (runtime_error view_wallet_message)"
  using assms
  by (simp add: throwIfViewWallet_def getTransactionInputsForAmount_def
      getFusionTransactionInputs_def markInputAsLocked_def markInputAsSpent_def
      removeCancelledTransactions_def getLockedTransactionsHashes_def)

theorem view_wallet_operations_throw_witness:
  "m_isViewWallet example_view_wallet
   \<and> getFusionTransactionInputs example_env example_view_wallet True [] 0
        = Inl (runtime_error view_wallet_message)
   \<and> markInputAsLocked (KeyImage 21) (PublicKey 11) example_view_wallet
        = Inl (runtime_error view_wallet_message)
   \<and> markInputAsSpent (KeyImage 21) (PublicKey 11) 30 example_view_wallet
        = Inl (runtime_error view_wallet_message)
   \<and> removeCancelledTransactions {Hash 41} example_view_wallet
        = Inl (runtime_error view_wallet_message)
   \<and> getLockedTransactionsHashes example_view_wallet = Inl (runtime_error view_wallet_message)"
proof -
  have h: "m_isViewWallet example_view_wallet" by simp
  show ?thesis
    using h view_wallet_operations_throw [OF h, of rev 1 True "[]" example_env 0
        "KeyImage 21" "PublicKey 11" 30 "{Hash 41}"]
    by simp
qed

section \<open>Standard input selection\<close>

text \<open>
  Gathering returns when every key to take from is a sub-wallet of the container and the
  sub-wallets have their private spend keys.
\<close>

lemma lookupWallets_returns:
  assumes "set ks \<subseteq> fst ` set m"
  shows "\<exists>ws. lookupWallets m ks = Inr ws \<and> set ws \<subseteq> snd ` set m"
  using assms
proof (induction ks)
  case Nil
  show ?case by simp
next
  case (Cons k ks)
  then obtain ws where ws: "lookupWallets m ks = Inr ws" "set ws \<subseteq> snd ` set m" by auto
  from Cons.prems obtain sw where sw: "map_of m k = Some sw"
    by (cases "map_of m k") (auto simp: map_of_eq_None_iff)
  then have "sw \<in> snd ` set m" by (metis map_of_SomeD snd_conv image_eqI)
  with ws sw show ?case by (simp add: map_at_def)
qed

lemma collectInputs_returns:
  assumes "\<forall>sw \<in> set ws. privateSpendKey sw \<noteq> None"
  shows "\<exists>inputs. collectInputs ws = Inr inputs"
  using assms by (induction ws) (auto simp: getInputs_def)

lemma availableInputs_returns:
  assumes "set (if takeFromAll then m_publicSpendKeys c else keys) \<subseteq> fst ` set (m_subWallets c)"
    and "\<forall>p \<in> set (m_subWallets c). privateSpendKey (snd p) \<noteq> None"
  shows "\<exists>avail. availableInputs c takeFromAll keys = Inr avail"
proof -
  from lookupWallets_returns [OF assms(1)] obtain ws
    where ws: "lookupWallets (m_subWallets c) (if takeFromAll then m_publicSpendKeys c else keys)
                 = Inr ws"
      "set ws \<subseteq> snd ` set (m_subWallets c)" by blast
  with assms(2) have "\<forall>sw \<in> set ws. privateSpendKey sw \<noteq> None" by auto
  from collectInputs_returns [OF this] ws(1) show ?thesis
    by (auto simp: availableInputs_def)
qed

lemma total_amount_simps [simp]:
  "total_amount [] = 0"
  "total_amount (w # ws) = unat (amount (input w)) + total_amount ws"
  "total_amount (xs @ ys) = total_amount xs + total_amount ys"
  by (simp_all add: total_amount_def)

lemma total_amount_mset:
  assumes "mset xs = mset ys"
  shows "total_amount xs = total_amount ys"
proof -
  have "total_amount xs = sum_mset (image_mset (\<lambda>w. unat (amount (input w))) (mset xs))"
    unfolding total_amount_def by (metis mset_map sum_mset_sum_list)
  also have "\<dots> = sum_mset (image_mset (\<lambda>w. unat (amount (input w))) (mset ys))"
    by (simp add: assms)
  also have "\<dots> = total_amount ys"
    unfolding total_amount_def by (metis mset_map sum_mset_sum_list)
  finally show ?thesis .
qed

lemma unat_add_no_overflow:
  fixes a b :: uint64_t
  assumes "unat a + unat b < 2 ^ 64"
  shows "unat (a + b) = unat a + unat b"
  using assms by (simp add: unat_word_ariths)

text \<open>
  The loop throws exactly when there is nothing to take or everything together stays
  below the target, as long as the running sum does not wrap.
\<close>

lemma selectInputs_fails_iff:
  assumes "unat found + total_amount ws < 2 ^ 64"
  shows "(\<exists>e. selectInputs target ws acc found = Inl e) \<longleftrightarrow>
         (ws = [] \<or> unat found + total_amount ws < unat target)"
  using assms
proof (induction ws arbitrary: acc found)
  case Nil
  show ?case by simp
next
  case (Cons w rest)
  let ?found' = "found + amount (input w)"
  have step: "unat ?found' = unat found + unat (amount (input w))"
    using Cons.prems by (intro unat_add_no_overflow) simp
  show ?case
  proof (cases "target \<le> ?found'")
    case True
    then have "unat target \<le> unat found + unat (amount (input w))"
      using step by (simp add: word_le_nat_alt)
    with True show ?thesis by (simp add: Let_def)
  next
    case False
    then have lt: "unat found + unat (amount (input w)) < unat target"
      using step by (simp add: word_le_nat_alt)
    have "(\<exists>e. selectInputs target rest (acc @ [w]) ?found' = Inl e) \<longleftrightarrow>
          (rest = [] \<or> unat ?found' + total_amount rest < unat target)"
      using Cons.prems step by (intro Cons.IH) simp
    with False lt step show ?thesis by (auto simp: Let_def)
  qed
qed

lemma selectInputs_failure:
  "selectInputs target ws acc found = Inl e \<Longrightarrow> e = invalid_argument not_enough_funds_message"
  by (induction ws arbitrary: acc found) (auto simp: Let_def split: if_splits)

lemma selectInputs_returns:
  assumes "selectInputs target ws acc found = Inr (inputs, s)"
    and "unat found + total_amount ws < 2 ^ 64"
  shows "\<exists>p. p \<noteq> [] \<and> prefix p ws \<and> inputs = acc @ p
             \<and> unat s = unat found + total_amount p \<and> target \<le> s"
  using assms
proof (induction ws arbitrary: acc found)
  case Nil
  then show ?case by simp
next
  case (Cons w rest)
  let ?found' = "found + amount (input w)"
  have step: "unat ?found' = unat found + unat (amount (input w))"
    using Cons.prems(2) by (intro unat_add_no_overflow) simp
  show ?case
  proof (cases "target \<le> ?found'")
    case True
    with Cons.prems(1) have "inputs = acc @ [w]" "s = ?found'"
      by (simp_all add: Let_def)
    with True step show ?thesis
      by (intro exI [of _ "[w]"]) simp
  next
    case False
    with Cons.prems(1) have "selectInputs target rest (acc @ [w]) ?found' = Inr (inputs, s)"
      by (simp add: Let_def)
    moreover have "unat ?found' + total_amount rest < 2 ^ 64"
      using Cons.prems(2) step by simp
    ultimately obtain p where p: "prefix p rest" "inputs = (acc @ [w]) @ p"
        "unat s = unat ?found' + total_amount p" "target \<le> s"
      using Cons.IH by blast
    then show ?thesis
      using step by (intro exI [of _ "w # p"]) simp
  qed
qed

text \<open>
  C4, as stated, fails in three ways. With target 0 and no spendable input the call
  throws "Not enough funds found!", although the total (0) is not below the target. With
  a key that is no sub-wallet, \<open>m_subWallets.at\<close> throws \<open>std::out_of_range\<close>, which is
  neither outcome of the claim. With two inputs of \<open>2^63\<close> each and target \<open>2^63 + 1\<close>,
  the \<open>uint64_t\<close> sum wraps to 0 and the call throws "Not enough funds found!", although
  the inputs total \<open>2^64\<close>.
\<close>

theorem selection_failure_cases:
  "availableInputs example_wallet True [] = Inr []
   \<and> getTransactionInputsForAmount (\<lambda>inputs. inputs) example_wallet 0 True []
        = Inl (invalid_argument ''Not enough funds found!'')
   \<and> getTransactionInputsForAmount (\<lambda>inputs. inputs) example_wallet 1 False [PublicKey 99]
        = Inl out_of_range
   \<and> availableInputs
        (funded 22 9223372036854775808 (funded 21 9223372036854775808 example_wallet)) True []
        = Inr [owned 21 9223372036854775808, owned 22 9223372036854775808]
   \<and> total_amount [owned 21 9223372036854775808, owned 22 9223372036854775808]
        = 18446744073709551616
   \<and> getTransactionInputsForAmount (\<lambda>inputs. inputs)
        (funded 22 9223372036854775808 (funded 21 9223372036854775808 example_wallet))
        9223372036854775809 True []
        = Inl (invalid_argument ''Not enough funds found!'')"
  by (simp add: getTransactionInputsForAmount_def throwIfViewWallet_def
      availableInputs_example_wallet availableInputs_unknown_key availableInputs_funded_big
      not_enough_funds_message_def total_amount_def Let_def)

text \<open>
  C4, amended. Take a container that is not a view wallet, on which gathering the
  spendable inputs of the selected sub-wallets returns (every selected key is a
  sub-wallet) and whose gathered amounts total less than \<open>2^64\<close>. For every target and
  every order the shuffle gives the inputs, \<open>getTransactionInputsForAmount\<close> either
  returns \<open>(inputs, sum)\<close>, where \<open>inputs\<close> is a non-empty initial part of the shuffled
  inputs, \<open>sum\<close> is the total of its amounts and \<open>sum \<ge> target\<close>, or throws
  \<open>std::invalid_argument\<close> "Not enough funds found!"; and it throws exactly when the
  total of all gathered inputs is below the target or there is no spendable input at all.
\<close>

theorem getTransactionInputsForAmount_selection:
  assumes "\<not> m_isViewWallet c"
    and "availableInputs c takeFromAll keys = Inr avail"
    and "mset (shuffle avail) = mset avail"
    and "total_amount avail < 2 ^ 64"
  shows "((\<exists>inputs s.
             getTransactionInputsForAmount shuffle c target takeFromAll keys = Inr (inputs, s)
             \<and> inputs \<noteq> [] \<and> prefix inputs (shuffle avail)
             \<and> unat s = total_amount inputs \<and> target \<le> s)
          \<or> getTransactionInputsForAmount shuffle c target takeFromAll keys
               = Inl (invalid_argument not_enough_funds_message))
       \<and> (getTransactionInputsForAmount shuffle c target takeFromAll keys
               = Inl (invalid_argument not_enough_funds_message)
            \<longleftrightarrow> avail = [] \<or> total_amount avail < unat target)"
proof -
  let ?r = "getTransactionInputsForAmount shuffle c target takeFromAll keys"
  have r: "?r = selectInputs target (shuffle avail) [] 0"
    using assms(1,2) by (simp add: getTransactionInputsForAmount_def throwIfViewWallet_def)
  have tot: "total_amount (shuffle avail) = total_amount avail"
    using assms(3) by (rule total_amount_mset)
  have bound: "unat (0::uint64_t) + total_amount (shuffle avail) < 2 ^ 64"
    using assms(4) tot by simp
  have empty: "shuffle avail = [] \<longleftrightarrow> avail = []"
    using assms(3) by (metis mset_zero_iff)
  have fails: "(\<exists>e. ?r = Inl e) \<longleftrightarrow> (avail = [] \<or> total_amount avail < unat target)"
    using selectInputs_fails_iff [OF bound, of target "[]"] r tot empty by simp
  have which: "?r = Inl (invalid_argument not_enough_funds_message)" if "?r = Inl e" for e
    using that selectInputs_failure r by metis
  have second: "?r = Inl (invalid_argument not_enough_funds_message)
      \<longleftrightarrow> avail = [] \<or> total_amount avail < unat target"
    using fails which by blast
  have first: "(\<exists>inputs s. ?r = Inr (inputs, s) \<and> inputs \<noteq> [] \<and> prefix inputs (shuffle avail)
              \<and> unat s = total_amount inputs \<and> target \<le> s)
          \<or> ?r = Inl (invalid_argument not_enough_funds_message)"
  proof (cases ?r)
    case (Inl e)
    then show ?thesis using which by simp
  next
    case (Inr res)
    obtain inputs s where res: "res = (inputs, s)" by (cases res)
    from Inr res r have "selectInputs target (shuffle avail) [] 0 = Inr (inputs, s)" by simp
    from selectInputs_returns [OF this bound]
    have "inputs \<noteq> [] \<and> prefix inputs (shuffle avail) \<and> unat s = total_amount inputs \<and> target \<le> s"
      by auto
    with Inr res show ?thesis by simp
  qed
  from first second show ?thesis by blast
qed

theorem getTransactionInputsForAmount_selection_witness:
  "\<not> m_isViewWallet (funded 22 7 (funded 21 5 example_wallet))
   \<and> availableInputs (funded 22 7 (funded 21 5 example_wallet)) True []
        = Inr [owned 21 5, owned 22 7]
   \<and> mset (rev [owned 21 5, owned 22 7]) = mset [owned 21 5, owned 22 7]
   \<and> total_amount [owned 21 5, owned 22 7] < 2 ^ 64
   \<and> getTransactionInputsForAmount rev (funded 22 7 (funded 21 5 example_wallet)) 6 True []
        = Inr ([owned 22 7], 7)
   \<and> (getTransactionInputsForAmount rev (funded 22 7 (funded 21 5 example_wallet)) 13 True []
        = Inl (invalid_argument not_enough_funds_message)
       \<longleftrightarrow> [owned 21 5, owned 22 7] = [] \<or> total_amount [owned 21 5, owned 22 7] < unat (13 :: uint64_t))"
proof -
  let ?c = "funded 22 7 (funded 21 5 example_wallet)"
  have h1: "\<not> m_isViewWallet ?c" by simp
  have h2: "availableInputs ?c True [] = Inr [owned 21 5, owned 22 7]"
    by (rule availableInputs_funded2)
  have h3: "mset (rev [owned 21 5, owned 22 7]) = mset [owned 21 5, owned 22 7]"
    by simp
  have h4: "total_amount [owned 21 5, owned 22 7] < 2 ^ 64"
    by simp
  have ev: "getTransactionInputsForAmount rev ?c 6 True [] = Inr ([owned 22 7], 7)"
    by (simp add: getTransactionInputsForAmount_def throwIfViewWallet_def h2)
  show ?thesis
    using h1 h2 h3 h4 ev
      getTransactionInputsForAmount_selection [where shuffle = rev and target = 13, OF h1 h2 h3 h4]
    by blast
qed

text \<open>
  C5, as stated, fails: with target 0 on a wallet that holds one spendable input of
  amount 5, the call returns that input and the sum 5, not the empty list and 0.
\<close>

theorem zero_target_takes_one_input:
  "getTransactionInputsForAmount (\<lambda>inputs. inputs) (funded 21 5 example_wallet) 0 True []
     = Inr ([owned 21 5], 5)"
  by (simp add: getTransactionInputsForAmount_def throwIfViewWallet_def availableInputs_funded)

text \<open>
  C5, amended. On a container that is not a view wallet and on which gathering the
  spendable inputs returns, \<open>getTransactionInputsForAmount\<close> with target 0 returns the
  first input of the shuffled list alone, with that input's amount as the sum; when
  there is no spendable input it throws "Not enough funds found!". The loop tests the
  sum only after it has taken an input.
\<close>

theorem getTransactionInputsForAmount_zero_target:
  assumes "\<not> m_isViewWallet c" and "availableInputs c takeFromAll keys = Inr avail"
  shows "getTransactionInputsForAmount shuffle c 0 takeFromAll keys =
     (case shuffle avail of
        [] \<Rightarrow> Inl (invalid_argument not_enough_funds_message)
      | first # _ \<Rightarrow> Inr ([first], amount (input first)))"
  using assms
  by (simp add: getTransactionInputsForAmount_def throwIfViewWallet_def split: list.splits)

theorem getTransactionInputsForAmount_zero_target_witness:
  "\<not> m_isViewWallet (funded 22 7 (funded 21 5 example_wallet))
   \<and> availableInputs (funded 22 7 (funded 21 5 example_wallet)) True []
        = Inr [owned 21 5, owned 22 7]
   \<and> getTransactionInputsForAmount rev (funded 22 7 (funded 21 5 example_wallet)) 0 True []
        = Inr ([owned 22 7], 7)"
proof -
  let ?c = "funded 22 7 (funded 21 5 example_wallet)"
  have h1: "\<not> m_isViewWallet ?c" by simp
  have h2: "availableInputs ?c True [] = Inr [owned 21 5, owned 22 7]"
    by (rule availableInputs_funded2)
  show ?thesis
    using h1 h2 getTransactionInputsForAmount_zero_target [where shuffle = rev, OF h1 h2]
    by simp
qed

section \<open>Fusion input selection\<close>

lemma map_of_push_bucket:
  "map_of (push_bucket k w bs) k' =
     (if k' = k then Some ((case map_of bs k of None \<Rightarrow> [] | Some b \<Rightarrow> b) @ [w])
      else map_of bs k')"
  by (simp add: push_bucket_def update_conv')

lemma distinct_push_bucket:
  "distinct (map fst bs) \<Longrightarrow> distinct (map fst (push_bucket k w bs))"
  by (simp add: push_bucket_def distinct_update)

lemma fillBuckets_distinct:
  "fillBuckets t ws bs = Inr bs' \<Longrightarrow> distinct (map fst bs) \<Longrightarrow> distinct (map fst bs')"
  by (induction ws arbitrary: bs) (auto simp: distinct_push_bucket split: option.splits)

text \<open>What the map holds under a key once the loop over the inputs has run.\<close>

lemma fillBuckets_map_of:
  assumes "fillBuckets t ws bs = Inr bs'"
  shows "map_of bs' k =
      (if map_of bs k = None \<and> bucketMembers t k ws = [] then None
       else Some ((case map_of bs k of None \<Rightarrow> [] | Some b \<Rightarrow> b) @ bucketMembers t k ws))"
  using assms
proof (induction ws arbitrary: bs)
  case Nil
  then show ?case by (auto simp: bucketMembers_def split: option.splits)
next
  case (Cons w rest)
  from Cons.prems obtain n where n: "numberOfDigits t (amount (input w)) = Some n"
    and rest: "fillBuckets t rest (push_bucket (word_of_int n) w bs) = Inr bs'"
    by (auto split: option.splits)
  from n have key: "word_of_int n = bucketOf t w"
    by (auto simp: numberOfDigits_def bucketOf_def split: if_splits)
  show ?case
    unfolding Cons.IH [OF rest] map_of_push_bucket key
    by (auto simp: bucketMembers_def split: option.splits)
qed

lemma fillBuckets_entries:
  assumes "fillBuckets t ws [] = Inr bs'"
  shows "(k, b) \<in> set bs' \<longleftrightarrow> b = bucketMembers t k ws \<and> b \<noteq> []"
proof -
  have d: "distinct (map fst bs')"
    using fillBuckets_distinct [OF assms] by simp
  have m: "map_of bs' k = (if bucketMembers t k ws = [] then None else Some (bucketMembers t k ws))"
    using fillBuckets_map_of [OF assms, of k] by simp
  have "(k, b) \<in> set bs' \<longleftrightarrow> map_of bs' k = Some b"
    using d by simp
  with m show ?thesis by auto
qed

lemma takeFromBucket_prefix:
  "takeFromBucket m b (acc, f) = (flag, acc', f') \<Longrightarrow> \<exists>p. prefix p b \<and> acc' = acc @ p"
proof (induction b arbitrary: acc f)
  case Nil
  then show ?case by simp
next
  case (Cons w rest)
  show ?case
  proof (cases "unat m \<le> length (acc @ [w])")
    case True
    with Cons.prems have "acc' = acc @ [w]" by (simp add: Let_def)
    then show ?thesis by (intro exI [of _ "[w]"]) simp
  next
    case False
    with Cons.prems
    have "takeFromBucket m rest (acc @ [w], f + amount (input w)) = (flag, acc', f')"
      by (simp add: Let_def)
    from Cons.IH [OF this] obtain p where "prefix p rest" "acc' = (acc @ [w]) @ p" by blast
    then show ?thesis by (intro exI [of _ "w # p"]) simp
  qed
qed

lemma takeFromBuckets_single:
  assumes "takeFromBuckets m [b] ([], 0) = (inputs, f)"
  shows "prefix inputs b"
proof -
  obtain flag acc' f' where t: "takeFromBucket m b ([], 0) = (flag, acc', f')"
    by (cases "takeFromBucket m b ([], 0)") auto
  with assms have "inputs = acc'" by (cases flag) simp_all
  with takeFromBucket_prefix [OF t] show ?thesis by simp
qed

lemma bucketMembers_mset:
  assumes "mset xs = mset ys"
  shows "mset (bucketMembers t k xs) = mset (bucketMembers t k ys)"
  using assms by (simp add: bucketMembers_def)

lemma bucketMembers_length:
  assumes "mset xs = mset ys"
  shows "length (bucketMembers t k xs) = length (bucketMembers t k ys)"
  using bucketMembers_mset [OF assms] by (metis size_mset)

text \<open>
  The fusion selection returns on a full wallet once gathering has returned and no
  gathered input has amount 0; the second component is the approximate maximum.
\<close>

lemma fillBuckets_returns:
  assumes "\<forall>w \<in> set ws. amount (input w) \<noteq> 0"
  shows "\<exists>bs'. fillBuckets t ws bs = Inr bs'"
  using assms by (induction ws arbitrary: bs) (simp_all add: numberOfDigits_def)

lemma getFusionTransactionInputs_returns:
  assumes "\<not> m_isViewWallet c"
    and "availableInputs c takeFromAll keys = Inr avail"
    and "mset (shuffleInputs env avail) = mset avail"
    and "\<forall>w \<in> set avail. amount (input w) \<noteq> 0"
  shows "\<exists>inputs found. getFusionTransactionInputs env c takeFromAll keys mixin
           = Inr (inputs, approximateMaximumInputCount env mixin, found)"
proof -
  have "set (shuffleInputs env avail) = set avail"
    using assms(3) by (metis set_mset_mset)
  with assms(4) have "\<forall>w \<in> set (shuffleInputs env avail). amount (input w) \<noteq> 0"
    by simp
  from fillBuckets_returns [OF this]
  obtain bs where "fillBuckets (log10_truncated env) (shuffleInputs env avail) [] = Inr bs"
    by blast
  with assms(1,2) show ?thesis
    by (simp add: getFusionTransactionInputs_def throwIfViewWallet_def Let_def split: prod.splits)
qed

text \<open>
  The buckets as the code forms them, under the index \<open>log10_truncated\<close> of the
  environment. Let \<open>getFusionTransactionInputs\<close> return on a container, whatever
  permutations the two shuffles apply and in whatever order the map of buckets is
  visited. If some bucket of the gathered candidates has at least
  \<open>FUSION_TX_MIN_INPUT_COUNT\<close> members, then there is one such full bucket that every
  returned input belongs to: the returned inputs are members of it, each taken at most
  as often as it occurs there.
\<close>

theorem getFusionTransactionInputs_single_full_bucket:
  assumes ret: "getFusionTransactionInputs env c takeFromAll keys mixin
                  = Inr (inputs, maxInputs, found)"
    and avail: "availableInputs c takeFromAll keys = Inr avail"
    and sh1: "\<forall>xs. mset (shuffleInputs env xs) = mset xs"
    and sh2: "\<forall>xs. mset (shuffleBuckets env xs) = mset xs"
    and ord: "\<forall>xs. mset (bucketOrder env xs) = mset xs"
    and full: "\<exists>k. FUSION_TX_MIN_INPUT_COUNT env
                      \<le> length (bucketMembers (log10_truncated env) k avail)"
  shows "\<exists>k. FUSION_TX_MIN_INPUT_COUNT env \<le> length (bucketMembers (log10_truncated env) k avail)
           \<and> mset inputs \<subseteq># mset (bucketMembers (log10_truncated env) k avail)
           \<and> (\<forall>w \<in> set inputs. bucketOf (log10_truncated env) w = k)"
proof -
  let ?t = "log10_truncated env"
  let ?N = "FUSION_TX_MIN_INPUT_COUNT env"
  let ?sh = "shuffleInputs env avail"
  have nv: "throwIfViewWallet c = Inr ()"
    using ret by (auto simp: getFusionTransactionInputs_def throwIfViewWallet_def split: if_splits)
  from ret avail nv obtain bs where bs: "fillBuckets ?t ?sh [] = Inr bs"
    by (auto simp: getFusionTransactionInputs_def Let_def split: sum.splits)
  let ?ordered = "bucketOrder env bs"
  let ?full = "map snd (filter (\<lambda>(n, bucket). ?N \<le> length bucket) ?ordered)"
  let ?fb = "shuffleBuckets env ?full"
  let ?take = "case ?fb of front # _ \<Rightarrow> [front] | [] \<Rightarrow> map snd ?ordered"
  from ret avail nv bs
  have tk: "takeFromBuckets (approximateMaximumInputCount env mixin) ?take ([], 0) = (inputs, found)"
    by (auto simp: getFusionTransactionInputs_def Let_def split: prod.splits)
  have set_ord: "set ?ordered = set bs"
    using ord by (metis set_mset_mset)
  have set_fb: "set ?fb = set ?full"
    using sh2 by (metis set_mset_mset)
  have perm: "mset ?sh = mset avail"
    using sh1 by simp
  have members: "mset (bucketMembers ?t k ?sh) = mset (bucketMembers ?t k avail)" for k
    using perm by (rule bucketMembers_mset)
  have len: "length (bucketMembers ?t k ?sh) = length (bucketMembers ?t k avail)" for k
    using perm by (rule bucketMembers_length)
  show ?thesis
  proof (cases ?fb)
    case (Cons front others)
    then have "front \<in> set ?full" using set_fb by (metis list.set_intros(1))
    then obtain k where k: "(k, front) \<in> set bs" "?N \<le> length front"
      using set_ord by auto
    then have front: "front = bucketMembers ?t k ?sh"
      using fillBuckets_entries [OF bs] by simp
    from tk Cons
    have "takeFromBuckets (approximateMaximumInputCount env mixin) [front] ([], 0) = (inputs, found)"
      by (simp del: takeFromBuckets.simps)
    then have "prefix inputs front"
      by (rule takeFromBuckets_single)
    then have sub: "mset inputs \<subseteq># mset front"
      by (metis prefix_def mset_append mset_subset_eq_add_left)
    have "\<forall>w \<in> set inputs. bucketOf ?t w = k"
      using sub front by (auto simp: bucketMembers_def dest!: set_mset_mono)
    with sub k(2) front members [of k] len [of k] show ?thesis
      by (intro exI [of _ k]) simp
  next
    case Nil
    then have nofull: "\<And>k b. (k, b) \<in> set bs \<Longrightarrow> \<not> ?N \<le> length b"
      using set_fb set_ord by (auto simp: filter_empty_conv)
    from full obtain k where k: "?N \<le> length (bucketMembers ?t k avail)" by blast
    have "bucketMembers ?t k ?sh = []"
    proof (rule ccontr)
      assume "bucketMembers ?t k ?sh \<noteq> []"
      then have "(k, bucketMembers ?t k ?sh) \<in> set bs"
        using fillBuckets_entries [OF bs] by simp
      with nofull k len [of k] show False by metis
    qed
    with k len [of k] have zero: "?N = 0" by simp
    have "bs = []"
    proof (cases bs)
      case (Cons e rest)
      then have "(fst e, snd e) \<in> set bs" by simp
      with nofull [of "fst e" "snd e"] zero show ?thesis by simp
    qed simp
    then have "?ordered = []" using ord by (metis mset_zero_iff)
    with tk Nil have "inputs = []" by simp
    with k show ?thesis by (intro exI [of _ k]) simp
  qed
qed

text \<open>
  The wallet holds inputs of 1, 5 and 20; with a minimum of 2 the bucket of 1 and 5 is
  the only full one, and the call returns exactly its two members.
\<close>

theorem getFusionTransactionInputs_single_full_bucket_witness:
  "getFusionTransactionInputs example_env
       (funded 23 20 (funded 22 5 (funded 21 1 example_wallet))) True [] 0
     = Inr ([owned 22 5, owned 21 1], 3, 6)
   \<and> availableInputs (funded 23 20 (funded 22 5 (funded 21 1 example_wallet))) True []
     = Inr [owned 21 1, owned 22 5, owned 23 20]
   \<and> (\<forall>xs. mset (shuffleInputs example_env xs) = mset xs)
   \<and> (\<forall>xs. mset (shuffleBuckets example_env xs) = mset xs)
   \<and> (\<forall>xs. mset (bucketOrder example_env xs) = mset xs)
   \<and> FUSION_TX_MIN_INPUT_COUNT example_env
        \<le> length (bucketMembers (log10_truncated example_env) 0
                     [owned 21 1, owned 22 5, owned 23 20])
   \<and> (\<exists>k. FUSION_TX_MIN_INPUT_COUNT example_env
              \<le> length (bucketMembers (log10_truncated example_env) k
                           [owned 21 1, owned 22 5, owned 23 20])
          \<and> mset [owned 22 5, owned 21 1]
              \<subseteq># mset (bucketMembers (log10_truncated example_env) k
                           [owned 21 1, owned 22 5, owned 23 20])
          \<and> (\<forall>w \<in> set [owned 22 5, owned 21 1]. bucketOf (log10_truncated example_env) w = k))"
proof -
  let ?c = "funded 23 20 (funded 22 5 (funded 21 1 example_wallet))"
  let ?avail = "[owned 21 1, owned 22 5, owned 23 20]"
  have ret: "getFusionTransactionInputs example_env ?c True [] 0
               = Inr ([owned 22 5, owned 21 1], 3, 6)"
    by (simp add: getFusionTransactionInputs_def throwIfViewWallet_def availableInputs_funded3
        example_env_def example_log10_def numberOfDigits_def push_bucket_def Let_def)
  have avail: "availableInputs ?c True [] = Inr ?avail"
    by (rule availableInputs_funded3)
  have sh1: "\<forall>xs. mset (shuffleInputs example_env xs) = mset xs"
    by (simp add: example_env_def)
  have sh2: "\<forall>xs. mset (shuffleBuckets example_env xs) = mset xs"
    by (simp add: example_env_def)
  have ord: "\<forall>xs. mset (bucketOrder example_env xs) = mset xs"
    by (simp add: example_env_def)
  have zero: "FUSION_TX_MIN_INPUT_COUNT example_env
                \<le> length (bucketMembers (log10_truncated example_env) 0 ?avail)"
    by (simp add: example_env_def example_log10_def bucketMembers_def bucketOf_def)
  then have full: "\<exists>k. FUSION_TX_MIN_INPUT_COUNT example_env
                \<le> length (bucketMembers (log10_truncated example_env) k ?avail)"
    by blast
  show ?thesis
    using ret avail sh1 sh2 ord zero
      getFusionTransactionInputs_single_full_bucket [OF ret avail sh1 sh2 ord full]
    by blast
qed

subsection \<open>The bucket index in double precision\<close>

lemma two_powr_neg: "(2::real) powr (- real_of_int (int n)) = 1 / 2 ^ n"
proof -
  have "(2::real) powr (- real_of_int (int n)) = inverse (2 powr real n)"
    by (simp add: powr_minus)
  also have "(2::real) powr real n = 2 ^ n"
    by (rule powr_realpow) simp
  finally show ?thesis by (simp add: divide_inverse)
qed

text \<open>\<open>to_double\<close> where the doubles are the multiples of \<open>2^(-n)\<close>.\<close>

lemma to_double_unfold:
  assumes "x \<noteq> 0" and "\<lfloor>log 2 \<bar>x\<bar>\<rfloor> = 52 - int n"
  shows "to_double x = of_int (round (x * 2 ^ n)) / 2 ^ n"
proof -
  have "of_int (52 - int n) - (52::real) = - real_of_int (int n)" by simp
  then have ulp: "(2::real) powr (of_int (52 - int n) - 52) = 1 / 2 ^ n"
    by (simp only: two_powr_neg)
  have "to_double x = of_int (round (x / (2 powr (of_int \<lfloor>log 2 \<bar>x\<bar>\<rfloor> - 52))))
                       * (2 powr (of_int \<lfloor>log 2 \<bar>x\<bar>\<rfloor> - 52))"
    using assms(1) by (simp only: to_double_def Let_def if_False)
  also have "\<dots> = of_int (round (x / (1 / 2 ^ n))) * (1 / 2 ^ n)"
    by (simp only: assms(2) ulp)
  finally show ?thesis by simp
qed

text \<open>An integer between \<open>2^49\<close> and \<open>2^50\<close> is a double.\<close>

lemma to_double_nat_exact:
  fixes n :: nat
  assumes "2 ^ 49 \<le> n" and "n < 2 ^ 50"
  shows "to_double (real n) = real n"
proof -
  have "n < 2 ^ (49 + 1)" using assms(2) by simp
  from floor_log_nat_eq_if [OF assms(1) this]
  have "\<lfloor>log 2 (real n)\<rfloor> = 49" by simp
  then have fl: "\<lfloor>log 2 \<bar>real n\<bar>\<rfloor> = 52 - int 3" by simp
  have n0: "real n \<noteq> 0" using assms by auto
  have "real n * 2 ^ 3 = of_int (int (n * 2 ^ 3))" by simp
  then have "round (real n * 2 ^ 3) = int (n * 2 ^ 3)" by (simp only: round_of_int)
  with to_double_unfold [OF n0 fl] show ?thesis by simp
qed

text \<open>
  Between 8 and 16 the doubles are \<open>2^(-49)\<close> apart: a real number closer to 15 than
  \<open>2^(-50)\<close> rounds to 15.
\<close>

lemma to_double_near_15:
  fixes r :: real
  assumes "\<bar>r - 15\<bar> < 1 / 2 ^ 50"
  shows "to_double r = 15"
proof -
  have small: "(1::real) / 2 ^ 50 < 1" by simp
  have r: "8 \<le> r" "r < 16" using assms small by linarith+
  have "\<lfloor>log 2 r\<rfloor> = 3"
  proof (rule floor_unique)
    have "log 2 ((2::real) ^ 3) = 3" by (subst log_pow_cancel) simp_all
    moreover have "log 2 (2 ^ 3) \<le> log 2 r" using r by simp
    ultimately show "of_int 3 \<le> log 2 r" by simp
  next
    have "log 2 ((2::real) ^ 4) = 4" by (subst log_pow_cancel) simp_all
    moreover have "log 2 r < log 2 (2 ^ 4)" using r by simp
    ultimately show "log 2 r < of_int 3 + 1" by simp
  qed
  then have fl: "\<lfloor>log 2 \<bar>r\<bar>\<rfloor> = 52 - int 49" using r by simp
  have r0: "r \<noteq> 0" using r by simp
  have "round (r * 2 ^ 49) = 15 * 2 ^ 49"
  proof (rule round_unique')
    have "r * 2 ^ 49 - of_int (15 * 2 ^ 49) = (r - 15) * 2 ^ 49"
      by (simp add: algebra_simps)
    then have "\<bar>r * 2 ^ 49 - of_int (15 * 2 ^ 49)\<bar> = \<bar>r - 15\<bar> * \<bar>2 ^ 49\<bar>"
      by (simp only: abs_mult)
    also have "\<dots> = \<bar>r - 15\<bar> * 2 ^ 49" by simp
    also have "\<dots> < (1 / 2 ^ 50) * 2 ^ 49"
      using assms by (intro mult_strict_right_mono) simp_all
    also have "\<dots> = 1 / 2" by simp
    finally show "\<bar>r * 2 ^ 49 - of_int (15 * 2 ^ 49)\<bar> < 1 / 2" .
  qed
  with to_double_unfold [OF r0 fl] show ?thesis by simp
qed

lemma ln_10_ge_2: "2 \<le> ln (10::real)"
proof -
  have "exp (2::real) = exp 1 * exp 1" by (simp add: exp_add [symmetric])
  also have "\<dots> \<le> 3 * 3" by (intro mult_mono exp_le) simp_all
  finally have "exp (2::real) \<le> 10" by simp
  then show ?thesis by (simp add: ln_ge_iff)
qed

lemma log10_one_plus_le:
  fixes d :: real
  assumes "0 \<le> d"
  shows "0 \<le> log 10 (1 + d)" and "log 10 (1 + d) \<le> d / 2"
proof -
  show "0 \<le> log 10 (1 + d)" using assms by simp
  have "ln (1 + d) \<le> d" using assms by (rule ln_add_one_self_le_self)
  moreover have "0 \<le> ln (1 + d)" using assms by simp
  ultimately have "ln (1 + d) / ln 10 \<le> d / 2"
    using ln_10_ge_2 by (intro frac_le) simp_all
  then show "log 10 (1 + d) \<le> d / 2" by (simp add: log_def)
qed

text \<open>
  The logarithm of \<open>10^15 - 1\<close> is below 15 by less than \<open>5 * 10^(-16)\<close>, that of
  \<open>10^15 + 1\<close> above 15 by as little: both are closer to 15 than \<open>2^(-50)\<close>.
\<close>

lemma log10_below: "\<bar>log 10 999999999999999 - 15\<bar> < 1 / 2 ^ 50"
proof -
  let ?d = "1 / (999999999999999::real)"
  have "log 10 (10 ^ 15) = log 10 (999999999999999 * (1 + ?d))" by simp
  also have "\<dots> = log 10 999999999999999 + log 10 (1 + ?d)"
    by (intro log_mult_pos) simp_all
  finally have "log 10 ((10::real) ^ 15) = log 10 999999999999999 + log 10 (1 + ?d)" .
  moreover have "log 10 ((10::real) ^ 15) = 15" by (subst log_pow_cancel) simp_all
  ultimately have eq: "log 10 999999999999999 = 15 - log 10 (1 + ?d)" by simp
  have "log 10 (1 + ?d) \<le> ?d / 2" "0 \<le> log 10 (1 + ?d)"
    using log10_one_plus_le [of ?d] by simp_all
  moreover have "?d / 2 < 1 / 2 ^ 50" by simp
  ultimately show ?thesis unfolding eq by simp
qed

lemma log10_above: "\<bar>log 10 1000000000000001 - 15\<bar> < 1 / 2 ^ 50"
proof -
  let ?d = "1 / (1000000000000000::real)"
  have "log 10 1000000000000001 = log 10 (10 ^ 15 * (1 + ?d))" by simp
  also have "\<dots> = log 10 (10 ^ 15) + log 10 (1 + ?d)"
    by (intro log_mult_pos) simp_all
  finally have "log 10 1000000000000001 = log 10 ((10::real) ^ 15) + log 10 (1 + ?d)" .
  moreover have "log 10 ((10::real) ^ 15) = 15" by (subst log_pow_cancel) simp_all
  ultimately have eq: "log 10 1000000000000001 = 15 + log 10 (1 + ?d)" by simp
  have "log 10 (1 + ?d) \<le> ?d / 2" "0 \<le> log 10 (1 + ?d)"
    using log10_one_plus_le [of ?d] by simp_all
  moreover have "?d / 2 < 1 / 2 ^ 50" by simp
  ultimately show ?thesis unfolding eq by simp
qed

lemma log10_exact: "\<bar>log 10 1000000000000000 - 15\<bar> < 1 / 2 ^ 50"
proof -
  have "log 10 ((10::real) ^ 15) = 15" by (subst log_pow_cancel) simp_all
  then show ?thesis by simp
qed

lemma double_log10_truncated_values:
  "double_log10_truncated 999999999999999 = 15"
  "double_log10_truncated 1000000000000000 = 15"
  "double_log10_truncated 1000000000000001 = 15"
proof -
  have e1: "to_double (real (999999999999999::nat)) = real (999999999999999::nat)"
    by (rule to_double_nat_exact) simp_all
  have e2: "to_double (real (1000000000000000::nat)) = real (1000000000000000::nat)"
    by (rule to_double_nat_exact) simp_all
  have e3: "to_double (real (1000000000000001::nat)) = real (1000000000000001::nat)"
    by (rule to_double_nat_exact) simp_all
  show "double_log10_truncated 999999999999999 = 15"
    using e1 to_double_near_15 [OF log10_below] by (simp add: double_log10_truncated_def)
  show "double_log10_truncated 1000000000000000 = 15"
    using e2 to_double_near_15 [OF log10_exact] by (simp add: double_log10_truncated_def)
  show "double_log10_truncated 1000000000000001 = 15"
    using e3 to_double_near_15 [OF log10_above] by (simp add: double_log10_truncated_def)
qed

lemma floor_log10_values:
  "floor_log10 999999999999999 = 14"
  "floor_log10 1000000000000000 = 15"
  "floor_log10 1000000000000001 = 15"
  using floor_log_nat_eq_if [of 10 14 999999999999999]
    floor_log_nat_eq_if [of 10 15 1000000000000000]
    floor_log_nat_eq_if [of 10 15 1000000000000001]
  by (simp_all add: floor_log10_def)

text \<open>
  Where the index the code computes is the floor of the logarithm on every gathered
  amount, the code's buckets are the powers of ten, and the returned inputs all belong
  to one full power-of-ten bucket.
\<close>

lemma getFusionTransactionInputs_floor_log10_bucket:
  assumes ret: "getFusionTransactionInputs env c takeFromAll keys mixin
                  = Inr (inputs, maxInputs, found)"
    and avail: "availableInputs c takeFromAll keys = Inr avail"
    and sh1: "\<forall>xs. mset (shuffleInputs env xs) = mset xs"
    and sh2: "\<forall>xs. mset (shuffleBuckets env xs) = mset xs"
    and ord: "\<forall>xs. mset (bucketOrder env xs) = mset xs"
    and exact: "\<forall>w \<in> set avail. log10_truncated env (amount (input w)) = floor_log10 (amount (input w))"
    and full: "\<exists>k. FUSION_TX_MIN_INPUT_COUNT env \<le> length (bucketMembers floor_log10 k avail)"
  shows "\<exists>k. FUSION_TX_MIN_INPUT_COUNT env \<le> length (bucketMembers floor_log10 k avail)
           \<and> mset inputs \<subseteq># mset (bucketMembers floor_log10 k avail)
           \<and> (\<forall>w \<in> set inputs. bucketOf floor_log10 w = k)"
proof -
  have same: "bucketMembers (log10_truncated env) k avail = bucketMembers floor_log10 k avail" for k
    unfolding bucketMembers_def using exact by (intro filter_cong) (simp_all add: bucketOf_def)
  from full have "\<exists>k. FUSION_TX_MIN_INPUT_COUNT env
                      \<le> length (bucketMembers (log10_truncated env) k avail)"
    by (simp add: same)
  from getFusionTransactionInputs_single_full_bucket [OF ret avail sh1 sh2 ord this]
  obtain k where k: "FUSION_TX_MIN_INPUT_COUNT env \<le> length (bucketMembers floor_log10 k avail)"
      "mset inputs \<subseteq># mset (bucketMembers floor_log10 k avail)"
    by (auto simp: same)
  from k(2) have "\<forall>w \<in> set inputs. bucketOf floor_log10 w = k"
    by (auto simp: bucketMembers_def dest!: set_mset_mono)
  with k show ?thesis by blast
qed

text \<open>
  C7. With the candidates grouped by \<open>floor(log10(amount))\<close>, every returned input is to
  belong to a single full bucket. The code takes the index from \<open>log10\<close> in double
  precision: the logarithm of \<open>10^15 - 1\<close> rounds to 15.0, so that input is filed with
  \<open>10^15\<close> and \<open>10^15 + 1\<close>. With a minimum of 2, the power-of-ten bucket 15 is full (two
  members) and bucket 14 holds \<open>10^15 - 1\<close> alone, yet the call returns all three
  inputs: they span two powers of ten, and one of them is in no full bucket.
\<close>

theorem fusion_mixes_powers_of_ten:
  "getFusionTransactionInputs double_env near_power_wallet True [] 0
     = Inr ([owned 23 1000000000000001, owned 22 1000000000000000, owned 21 999999999999999],
            3, 3000000000000000)
   \<and> FUSION_TX_MIN_INPUT_COUNT double_env = 2
   \<and> bucketMembers floor_log10 15
        [owned 21 999999999999999, owned 22 1000000000000000, owned 23 1000000000000001]
      = [owned 22 1000000000000000, owned 23 1000000000000001]
   \<and> bucketMembers floor_log10 14
        [owned 21 999999999999999, owned 22 1000000000000000, owned 23 1000000000000001]
      = [owned 21 999999999999999]
   \<and> floor_log10 999999999999999 = 14
   \<and> double_log10_truncated 999999999999999 = 15"
  by (simp add: getFusionTransactionInputs_def throwIfViewWallet_def
      availableInputs_near_power_wallet double_env_def example_env_def numberOfDigits_def
      push_bucket_def Let_def double_log10_truncated_values floor_log10_values
      bucketMembers_def bucketOf_def)

text \<open>
  C8. The bucketing step is to give every candidate a bucket index, with amount 0 in
  bucket 0. The code computes \<open>log10\<close> of the amount with no test for zero: on a wallet
  whose only spendable input has amount 0 the conversion of \<open>log10(0)\<close> to \<open>int\<close> is
  undefined, so the call has no defined result and the input is in no bucket.
\<close>

theorem zero_amount_bucket_undefined:
  "numberOfDigits example_log10 0 = None
   \<and> getFusionTransactionInputs example_env (funded 21 0 example_wallet) True [] 0
       = Inl undefined_behaviour"
  by (simp add: getFusionTransactionInputs_def throwIfViewWallet_def availableInputs_funded_zero
      example_env_def example_log10_def numberOfDigits_def push_bucket_def Let_def)

end
